theory Spec2Isabelle
  imports Main "HOL-Library.AList"
begin

section \<open>Python values: exceptions, dictionaries, arrays\<close>

text \<open>
  The exceptions that the post-processing stages of
  \<^verbatim>\<open>deeplabcut/pose_estimation_pytorch/data/postprocessor.py\<close> can raise.
  A call that raises is a value \<open>Inl e\<close>; a call that returns \<open>v\<close> is \<open>Inr v\<close>.
\<close>

datatype error = ValueError | TypeError | KeyError | IndexError | AttributeError

definition then_do :: "error + 'a \<Rightarrow> ('a \<Rightarrow> error + 'b) \<Rightarrow> error + 'b" where
  "then_do r f = (case r of Inl e \<Rightarrow> Inl e | Inr v \<Rightarrow> f v)"

text \<open>A list comprehension whose element expression may raise: the first exception wins.\<close>

fun for_each :: "('a \<Rightarrow> error + 'b) \<Rightarrow> 'a list \<Rightarrow> error + 'b list" where
  "for_each f [] = Inr []"
| "for_each f (x # xs) =
     (case f x of Inl e \<Rightarrow> Inl e
      | Inr y \<Rightarrow> (case for_each f xs of Inl e \<Rightarrow> Inl e | Inr ys \<Rightarrow> Inr (y # ys)))"

text \<open>
  A Python \<^verbatim>\<open>dict\<close> keeps its keys in insertion order; it is an association list.
  \<^verbatim>\<open>d[k]\<close> raises KeyError on a missing key; \<^verbatim>\<open>d[k] = v\<close> overwrites the entry
  in place when the key is present and appends it otherwise.
\<close>

type_synonym ('k, 'v) dict = "('k \<times> 'v) list"

definition dict_keys :: "('k, 'v) dict \<Rightarrow> 'k list" where
  "dict_keys d = map fst d"

definition dict_get :: "('k, 'v) dict \<Rightarrow> 'k \<Rightarrow> error + 'v" where
  "dict_get d k = (case map_of d k of None \<Rightarrow> Inl KeyError | Some v \<Rightarrow> Inr v)"

definition dict_set :: "('k, 'v) dict \<Rightarrow> 'k \<Rightarrow> 'v \<Rightarrow> ('k, 'v) dict" where
  "dict_set d k v = AList.update k v d"

definition dict_of_items :: "('k \<times> 'v) list \<Rightarrow> ('k, 'v) dict" where
  "dict_of_items items = fold (\<lambda>(k, v) d. dict_set d k v) items []"

text \<open>
  A numpy array is its shape and its elements in row-major order. The element type is a
  parameter: the stages only add, multiply, subtract and negate elements and write the
  constants 0 and 1.
\<close>

record 'a ndarray =
  shape :: "nat list"
  data :: "'a list"

definition wf_array :: "'a ndarray \<Rightarrow> bool" where
  "wf_array a = (length (data a) = prod_list (shape a))"

text \<open>\<^verbatim>\<open>len(a)\<close>: the leading dimension; a zero-dimensional array has none (TypeError).\<close>

definition len_array :: "'a ndarray \<Rightarrow> error + nat" where
  "len_array a = (case shape a of [] \<Rightarrow> Inl TypeError | n # _ \<Rightarrow> Inr n)"

text \<open>
  \<^verbatim>\<open>np.zeros(shape)\<close> and \<^verbatim>\<open>np.ones(shape)\<close> validate the shape before they
  allocate: a negative dimension is a ValueError, and so is a dimension above the largest
  index of the platform and a size in bytes above it, where the size is the item size
  times the product of the non-zero dimensions (a zero dimension does not switch the
  check off). The arrays are of dtype float64, 8 bytes an item, and the platform is a
  64-bit one. Running out of memory below that limit is not modelled.
\<close>

definition max_intp :: int where
  "max_intp = 2 ^ 63 - 1"

definition itemsize :: int where
  "itemsize = 8"

definition shape_fits :: "int list \<Rightarrow> bool" where
  "shape_fits shp =
     (list_all (\<lambda>d. 0 \<le> d \<and> d \<le> max_intp) shp \<and>
      itemsize * prod_list (filter (\<lambda>d. d \<noteq> 0) shp) \<le> max_intp)"

definition np_zeros :: "int list \<Rightarrow> error + ('a::zero) ndarray" where
  "np_zeros shp =
     (if shape_fits shp
      then Inr \<lparr>shape = map nat shp, data = replicate (prod_list (map nat shp)) 0\<rparr>
      else Inl ValueError)"

definition np_ones :: "int list \<Rightarrow> error + ('a::one) ndarray" where
  "np_ones shp =
     (if shape_fits shp
      then Inr \<lparr>shape = map nat shp, data = replicate (prod_list (map nat shp)) 1\<rparr>
      else Inl ValueError)"

definition negate :: "('a::uminus) ndarray \<Rightarrow> 'a ndarray" where
  "negate a = \<lparr>shape = shape a, data = map uminus (data a)\<rparr>"

text \<open>
  \<^verbatim>\<open>np.concatenate(arrays)\<close> joins along the existing axis 0. It needs at least one
  array, no zero-dimensional array, and the same shape after the first axis in all of
  them; otherwise it raises ValueError. No axis is added.
\<close>

definition np_concatenate :: "'a ndarray list \<Rightarrow> error + 'a ndarray" where
  "np_concatenate arrays =
     (case arrays of
        [] \<Rightarrow> Inl ValueError
      | a # rest \<Rightarrow>
          (case shape a of
             [] \<Rightarrow> Inl ValueError
           | n # tail_shape \<Rightarrow>
               if list_all (\<lambda>b. shape b \<noteq> [] \<and> tl (shape b) = tail_shape) rest
               then Inr \<lparr>shape = sum_list (map (\<lambda>b. hd (shape b)) arrays) # tail_shape,
                         data = concat (map data arrays)\<rparr>
               else Inl ValueError))"

text \<open>
  \<^verbatim>\<open>np.stack(arrays)\<close> joins along a new leading axis: all arrays must have the same
  shape, and the result has shape \<open>(len(arrays), *shape)\<close>.
\<close>

definition np_stack :: "'a ndarray list \<Rightarrow> error + 'a ndarray" where
  "np_stack arrays =
     (case arrays of
        [] \<Rightarrow> Inl ValueError
      | a # rest \<Rightarrow>
          if list_all (\<lambda>b. shape b = shape a) rest
          then Inr \<lparr>shape = length arrays # shape a, data = concat (map data arrays)\<rparr>
          else Inl ValueError)"

text \<open>The first \<open>n\<close> consecutive blocks of \<open>k\<close> elements of a row-major list.\<close>

fun chunks :: "nat \<Rightarrow> nat \<Rightarrow> 'a list \<Rightarrow> 'a list list" where
  "chunks k 0 xs = []"
| "chunks k (Suc n) xs = take k xs # chunks k n (drop k xs)"

text \<open>The entries along axis 0, as Python's iteration over an array yields them.\<close>

definition rows :: "'a ndarray \<Rightarrow> 'a ndarray list" where
  "rows a =
     (case shape a of
        [] \<Rightarrow> []
      | n # tail_shape \<Rightarrow>
          map (\<lambda>d. \<lparr>shape = tail_shape, data = d\<rparr>) (chunks (prod_list tail_shape) n (data a)))"

text \<open>
  Indexing with a constant \<open>j \<ge> 0\<close> on one axis and full slices before it:
  \<^verbatim>\<open>a[j]\<close> is axis 0, \<^verbatim>\<open>a[:, j]\<close> axis 1, \<^verbatim>\<open>a[:, :, j]\<close> axis 2. The axis
  disappears from the shape. An array with too few dimensions and an index past the end
  of the axis raise IndexError.
\<close>

definition select :: "nat \<Rightarrow> 'a ndarray \<Rightarrow> nat \<Rightarrow> error + 'a ndarray" where
  "select axis a j =
     (if axis < length (shape a) \<and> j < shape a ! axis
      then (let pre = take axis (shape a);
                post = drop (Suc axis) (shape a);
                c = shape a ! axis;
                r = prod_list post
            in Inr \<lparr>shape = pre @ post,
                    data = concat (map (\<lambda>block. take r (drop (j * r) block))
                                       (chunks (c * r) (prod_list pre) (data a)))\<rparr>)
      else Inl IndexError)"

text \<open>
  Broadcasting. Two shapes are aligned at their last axes, the shorter one padded with
  ones on the left; on every axis the sizes must be equal or one of them must be 1.
\<close>

definition pad_shape :: "nat \<Rightarrow> nat list \<Rightarrow> nat list" where
  "pad_shape r s = replicate (r - length s) 1 @ s"

fun broadcast_dims :: "nat list \<Rightarrow> nat list \<Rightarrow> error + nat list" where
  "broadcast_dims [] [] = Inr []"
| "broadcast_dims (a # as) (b # bs) =
     (case broadcast_dims as bs of
        Inl e \<Rightarrow> Inl e
      | Inr ds \<Rightarrow> if a = b \<or> b = 1 then Inr (a # ds)
                  else if a = 1 then Inr (b # ds)
                  else Inl ValueError)"
| "broadcast_dims as bs = Inl ValueError"

text \<open>The elements of an array of shape \<open>src\<close> repeated to fill the shape \<open>dst\<close>.\<close>

fun expand :: "nat list \<Rightarrow> nat list \<Rightarrow> 'a list \<Rightarrow> 'a list" where
  "expand (s # ss) (t # ts) xs =
     (if s = t then concat (map (expand ss ts) (chunks (prod_list ss) s xs))
      else concat (replicate t (expand ss ts xs)))"
| "expand ss ts xs = xs"

definition broadcast_op ::
  "('a \<Rightarrow> 'a \<Rightarrow> 'a) \<Rightarrow> 'a ndarray \<Rightarrow> 'a ndarray \<Rightarrow> error + 'a ndarray" where
  "broadcast_op f a b =
     (let r = max (length (shape a)) (length (shape b));
          sa = pad_shape r (shape a);
          sb = pad_shape r (shape b)
      in case broadcast_dims sa sb of
           Inl e \<Rightarrow> Inl e
         | Inr s \<Rightarrow> Inr \<lparr>shape = s,
                         data = map (\<lambda>(x, y). f x y)
                                    (zip (expand sa s (data a)) (expand sb s (data b)))\<rparr>)"

text \<open>
  The value of an assignment is broadcast into the shape of the slot: unit axes on its
  left beyond the slot's dimensions are dropped, and then every axis must have the
  slot's size or size 1; otherwise the assignment raises ValueError.
\<close>

fun strip_ones :: "nat \<Rightarrow> nat list \<Rightarrow> nat list" where
  "strip_ones r (d # ds) = (if r < length (d # ds) \<and> d = 1 then strip_ones r ds else d # ds)"
| "strip_ones r [] = []"

definition broadcast_into :: "nat list \<Rightarrow> 'a ndarray \<Rightarrow> error + 'a list" where
  "broadcast_into slot v =
     (let sv = strip_ones (length slot) (shape v)
      in if length slot < length sv then Inl ValueError
         else (let pv = pad_shape (length slot) sv
               in if list_all (\<lambda>(d, t). d = t \<or> d = 1) (zip pv slot)
                  then Inr (expand pv slot (data v))
                  else Inl ValueError))"

text \<open>
  The assignment \<^verbatim>\<open>a[j] = v\<close>, \<^verbatim>\<open>a[:, j] = v\<close> or \<^verbatim>\<open>a[:, :, j] = v\<close>
  (axis 0, 1, 2): the array after it.
\<close>

definition assign :: "nat \<Rightarrow> 'a ndarray \<Rightarrow> nat \<Rightarrow> 'a ndarray \<Rightarrow> error + 'a ndarray" where
  "assign axis a j v =
     (if axis < length (shape a) \<and> j < shape a ! axis
      then (let pre = take axis (shape a);
                post = drop (Suc axis) (shape a);
                c = shape a ! axis;
                r = prod_list post
            in case broadcast_into (pre @ post) v of
                 Inl e \<Rightarrow> Inl e
               | Inr vals \<Rightarrow>
                   Inr \<lparr>shape = shape a,
                        data = concat (map (\<lambda>(block, piece).
                                              take (j * r) block @ piece @ drop (Suc j * r) block)
                                           (zip (chunks (c * r) (prod_list pre) (data a))
                                                (chunks r (prod_list pre) vals)))\<rparr>)
      else Inl IndexError)"

section \<open>The per-image context and the predictions\<close>

text \<open>
  Modelled from the spec: the type \<^verbatim>\<open>Context\<close> is imported from the pre-processor
  module, which is not part of the sources at hand. The spec describes it as a mapping
  from string keys (\<^verbatim>\<open>scales\<close>, \<^verbatim>\<open>offsets\<close>, \<^verbatim>\<open>bboxes\<close>,
  \<^verbatim>\<open>bbox_scores\<close>) to sequences of numbers; every value is represented by the array
  that \<^verbatim>\<open>np.array\<close> makes of it.
\<close>

type_synonym 'a Context = "(string, 'a ndarray) dict"

text \<open>
  A candidate's prediction record maps a head name to a mapping from a value name to an
  array; the output of a stage maps an output key to an array.
\<close>

type_synonym 'a prediction = "(string, (string, 'a ndarray) dict) dict"

type_synonym 'a outputs = "(string, 'a ndarray) dict"

section \<open>ConcatenateOutputs\<close>

record ConcatenateOutputs =
  keys_to_concatenate :: "(string, string \<times> string) dict"
  empty_shapes :: "(string, int list) dict option"
  create_empty_outputs :: bool

text \<open>
  The constructor stores its three arguments and, when \<^verbatim>\<open>create_empty_outputs\<close> is
  set, checks \<^verbatim>\<open>k in self.empty_shapes\<close> for every key to concatenate: the test
  raises TypeError on \<^verbatim>\<open>None\<close> (when there is a key to test), and a key without a
  shape is a ValueError.
\<close>

definition ConcatenateOutputs_init ::
  "(string, string \<times> string) dict \<Rightarrow> (string, int list) dict option \<Rightarrow> bool
   \<Rightarrow> error + ConcatenateOutputs" where
  "ConcatenateOutputs_init keys shapes create =
     (let self = \<lparr>keys_to_concatenate = keys, empty_shapes = shapes,
                  create_empty_outputs = create\<rparr>
      in if create
         then (case for_each (\<lambda>k. case shapes of
                                     None \<Rightarrow> Inl TypeError
                                   | Some m \<Rightarrow> Inr (k \<in> set (dict_keys m)))
                             (dict_keys keys) of
                 Inl e \<Rightarrow> Inl e
               | Inr found \<Rightarrow> if \<not> list_all (\<lambda>b. b) found then Inl ValueError else Inr self)
         else Inr self)"

text \<open>\<^verbatim>\<open>self.empty_shapes[name]\<close>: subscripting \<^verbatim>\<open>None\<close> raises TypeError.\<close>

definition empty_shape_of :: "ConcatenateOutputs \<Rightarrow> string \<Rightarrow> error + int list" where
  "empty_shape_of self name =
     (case empty_shapes self of None \<Rightarrow> Inl TypeError | Some m \<Rightarrow> dict_get m name)"

text \<open>\<^verbatim>\<open>[p[head_name][val_name] for p in predictions]\<close>\<close>

definition candidate_arrays ::
  "'a prediction list \<Rightarrow> string \<Rightarrow> string \<Rightarrow> error + 'a ndarray list" where
  "candidate_arrays predictions head_name val_name =
     for_each (\<lambda>p. then_do (dict_get p head_name) (\<lambda>h. dict_get h val_name)) predictions"

text \<open>The loop over \<^verbatim>\<open>self.keys_to_concatenate.items()\<close>, filling \<^verbatim>\<open>outputs\<close>.\<close>

fun concatenate_loop ::
  "(string \<times> string \<times> string) list \<Rightarrow> 'a prediction list \<Rightarrow> 'a outputs
   \<Rightarrow> error + 'a outputs" where
  "concatenate_loop [] predictions outputs = Inr outputs"
| "concatenate_loop ((output_name, head_name, val_name) # items) predictions outputs =
     (case candidate_arrays predictions head_name val_name of
        Inl e \<Rightarrow> Inl e
      | Inr arrays \<Rightarrow>
          (case np_concatenate arrays of
             Inl e \<Rightarrow> Inl e
           | Inr joined \<Rightarrow>
               concatenate_loop items predictions (dict_set outputs output_name joined)))"

definition ConcatenateOutputs_call ::
  "ConcatenateOutputs \<Rightarrow> ('a::zero) prediction list \<Rightarrow> 'a Context
   \<Rightarrow> error + ('a outputs \<times> 'a Context)" where
  "ConcatenateOutputs_call self predictions context =
     (if length predictions = 0
      then (case for_each (\<lambda>name. then_do (empty_shape_of self name) (\<lambda>shp.
                                   then_do (np_zeros (0 # shp)) (\<lambda>z. Inr (name, z))))
                          (dict_keys (keys_to_concatenate self)) of
              Inl e \<Rightarrow> Inl e
            | Inr items \<Rightarrow> Inr (dict_of_items items, context))
      else (case concatenate_loop (keys_to_concatenate self) predictions [] of
              Inl e \<Rightarrow> Inl e
            | Inr outputs \<Rightarrow> Inr (outputs, context)))"

section \<open>PadOutputs\<close>

record PadOutputs =
  max_individuals :: "(string, int) dict"
  pad_value :: int

definition PadOutputs_init :: "(string, int) dict \<Rightarrow> int \<Rightarrow> PadOutputs" where
  "PadOutputs_init maxes v = \<lparr>max_individuals = maxes, pad_value = v\<rparr>"

text \<open>
  The loop \<^verbatim>\<open>for name in predictions\<close>. The mapping is updated in place, so the
  function returns the state of the mapping together with the outcome: when an iteration
  raises, the entries padded before it stay padded. In the comparison \<^verbatim>\<open>len(output)\<close>
  is evaluated before \<^verbatim>\<open>self.max_individuals[name]\<close>. The padding is
  \<^verbatim>\<open>-np.ones((pad_size, *tail_shape))\<close>, and \<^verbatim>\<open>np.ones\<close> raises when the
  shape of the padding does not fit.
\<close>

fun PadOutputs_loop ::
  "PadOutputs \<Rightarrow> string list \<Rightarrow> ('a::{one,uminus}) outputs \<Rightarrow> 'a outputs \<times> (error + unit)" where
  "PadOutputs_loop self [] predictions = (predictions, Inr ())"
| "PadOutputs_loop self (name # names) predictions =
     (case dict_get predictions name of
        Inl e \<Rightarrow> (predictions, Inl e)
      | Inr output \<Rightarrow>
          (case len_array output of
             Inl e \<Rightarrow> (predictions, Inl e)
           | Inr n \<Rightarrow>
               (case dict_get (max_individuals self) name of
                  Inl e \<Rightarrow> (predictions, Inl e)
                | Inr target \<Rightarrow>
                    if int n < target
                    then (let pad_size = target - int n;
                              tail_shape = tl (shape output)
                          in case np_ones (pad_size # map int tail_shape) of
                               Inl e \<Rightarrow> (predictions, Inl e)
                             | Inr ones \<Rightarrow>
                                 (case np_concatenate [output, negate ones] of
                                    Inl e \<Rightarrow> (predictions, Inl e)
                                  | Inr padded \<Rightarrow>
                                      PadOutputs_loop self names
                                        (dict_set predictions name padded)))
                    else PadOutputs_loop self names predictions)))"

text \<open>
  The call returns the state in which it leaves the mapping it was given, and either the
  exception or the returned pair (the same mapping, and the context).
\<close>

definition PadOutputs_call ::
  "PadOutputs \<Rightarrow> ('a::{one,uminus}) outputs \<Rightarrow> 'a Context
   \<Rightarrow> 'a outputs \<times> (error + ('a outputs \<times> 'a Context))" where
  "PadOutputs_call self predictions context =
     (case PadOutputs_loop self (dict_keys predictions) predictions of
        (after, Inl e) \<Rightarrow> (after, Inl e)
      | (after, Inr u) \<Rightarrow> (after, Inr (after, context)))"

text \<open>
  What one iteration of the loop stores for an array and the target of its key: the
  array with \<open>target - len\<close> rows of \<open>-1\<close> appended when its leading dimension is
  below the target, and the array itself otherwise.
\<close>

definition padded :: "int \<Rightarrow> ('a::{one,uminus}) ndarray \<Rightarrow> 'a ndarray" where
  "padded target a =
     (case shape a of
        [] \<Rightarrow> a
      | n # t \<Rightarrow>
          if int n < target
          then \<lparr>shape = nat target # t,
                data = data a @ replicate ((nat target - n) * prod_list t) (- 1)\<rparr>
          else a)"

text \<open>
  The padding that an iteration would ask of \<^verbatim>\<open>np.ones\<close> for an entry of the outputs
  is within the size limit: for a key with a target above the leading dimension of its
  array, the shape \<open>(target - len, *tail_shape)\<close> fits. Entries that get no padding
  satisfy it.
\<close>

definition padding_fits :: "PadOutputs \<Rightarrow> string \<times> 'a ndarray \<Rightarrow> bool" where
  "padding_fits self entry =
     (case entry of (name, a) \<Rightarrow>
        (case map_of (max_individuals self) name of
           None \<Rightarrow> True
         | Some target \<Rightarrow>
             (case shape a of
                [] \<Rightarrow> True
              | n # t \<Rightarrow>
                  if int n < target then shape_fits ((target - int n) # map int t) else True)))"

section \<open>RescaleAndOffset\<close>

datatype Mode = BBOX_XYWH | KEYPOINT | KEYPOINT_TD

record RescaleAndOffset =
  keys_to_rescale :: "string list"
  mode :: Mode

text \<open>
  The class body of \<^verbatim>\<open>RescaleAndOffset\<close> defines one nested class, the enumeration
  \<^verbatim>\<open>Mode\<close> with three members. \<^verbatim>\<open>RescaleAndOffset.<cls>.<member>\<close> raises
  AttributeError for every other name.
\<close>

definition RescaleAndOffset_attr :: "string \<Rightarrow> string \<Rightarrow> error + Mode" where
  "RescaleAndOffset_attr cls member =
     (if cls = ''Mode''
      then (if member = ''BBOX_XYWH'' then Inr BBOX_XYWH
            else if member = ''KEYPOINT'' then Inr KEYPOINT
            else if member = ''KEYPOINT_TD'' then Inr KEYPOINT_TD
            else Inl AttributeError)
      else Inl AttributeError)"

text \<open>
  The constructor \<^verbatim>\<open>__init__(self, keys_to_rescale, mode)\<close> called with two keyword
  arguments, the first holding a list of keys and the second a mode. A keyword that is
  not the name of a parameter is a TypeError.
\<close>

definition RescaleAndOffset_init ::
  "string \<Rightarrow> string list \<Rightarrow> string \<Rightarrow> Mode \<Rightarrow> error + RescaleAndOffset" where
  "RescaleAndOffset_init kw_keys ks kw_mode m =
     (if kw_keys = ''keys_to_rescale'' \<and> kw_mode = ''mode''
      then Inr \<lparr>keys_to_rescale = ks, mode = m\<rparr>
      else Inl TypeError)"

text \<open>
  \<^verbatim>\<open>rescaled[.., j] = outputs[.., j] * scales[i] + offsets[i]\<close> and
  \<^verbatim>\<open>rescaled[.., j] = outputs[.., j] * scales[i]\<close>, with \<open>axis\<close> full slices before
  the index \<open>j\<close>. The right-hand side is evaluated left to right, then assigned.
\<close>

definition scale_and_offset ::
  "nat \<Rightarrow> nat \<Rightarrow> nat \<Rightarrow> ('a::{times,plus}) ndarray \<Rightarrow> 'a ndarray \<Rightarrow> 'a ndarray \<Rightarrow> 'a ndarray
   \<Rightarrow> error + 'a ndarray" where
  "scale_and_offset axis j i rescaled outputs scales offsets =
     then_do (select axis outputs j) (\<lambda>col.
     then_do (select 0 scales i) (\<lambda>s.
     then_do (broadcast_op (\<lambda>x y. x * y) col s) (\<lambda>scaled.
     then_do (select 0 offsets i) (\<lambda>off.
     then_do (broadcast_op (\<lambda>x y. x + y) scaled off) (\<lambda>v.
     assign axis rescaled j v)))))"

definition scale_only ::
  "nat \<Rightarrow> nat \<Rightarrow> nat \<Rightarrow> ('a::{times,plus}) ndarray \<Rightarrow> 'a ndarray \<Rightarrow> 'a ndarray
   \<Rightarrow> error + 'a ndarray" where
  "scale_only axis j i rescaled outputs scales =
     then_do (select axis outputs j) (\<lambda>col.
     then_do (select 0 scales i) (\<lambda>s.
     then_do (broadcast_op (\<lambda>x y. x * y) col s) (\<lambda>v.
     assign axis rescaled j v)))"

text \<open>
  The body of the loop for one key to rescale, by mode. \<^verbatim>\<open>outputs.copy()\<close> is the
  same value in a new object. In the top-down mode the chained comparison
  \<^verbatim>\<open>len(outputs) == len(scales) == len(offsets)\<close> evaluates \<^verbatim>\<open>len(offsets)\<close> only
  when the first two lengths agree. The message of the ValueError is formatted from the
  three lengths before the exception is raised, so an array without a length among them
  makes the \<^verbatim>\<open>raise\<close> statement end in TypeError.
\<close>

definition cardinality_error ::
  "'a ndarray \<Rightarrow> 'a ndarray \<Rightarrow> 'a ndarray \<Rightarrow> error + 'b" where
  "cardinality_error outputs scales offsets =
     then_do (len_array outputs) (\<lambda>n.
     then_do (len_array scales) (\<lambda>ns.
     then_do (len_array offsets) (\<lambda>no.
     Inl ValueError)))"

definition rescale_individual ::
  "('a::{times,plus}) ndarray \<times> 'a ndarray \<times> 'a ndarray \<Rightarrow> error + 'a ndarray" where
  "rescale_individual t =
     (case t of (output, scale, offset) \<Rightarrow>
        then_do (scale_and_offset 1 0 0 output output scale offset) (\<lambda>r0.
        scale_and_offset 1 1 1 r0 output scale offset))"

definition rescale_outputs ::
  "Mode \<Rightarrow> ('a::{times,plus}) ndarray \<Rightarrow> 'a ndarray \<Rightarrow> 'a ndarray \<Rightarrow> error + 'a ndarray" where
  "rescale_outputs m outputs scales offsets =
     (case m of
        BBOX_XYWH \<Rightarrow>
          then_do (scale_and_offset 1 0 0 outputs outputs scales offsets) (\<lambda>r0.
          then_do (scale_and_offset 1 1 1 r0 outputs scales offsets) (\<lambda>r1.
          then_do (scale_only 1 2 0 r1 outputs scales) (\<lambda>r2.
          scale_only 1 3 1 r2 outputs scales)))
      | KEYPOINT \<Rightarrow>
          then_do (scale_and_offset 2 0 0 outputs outputs scales offsets) (\<lambda>r0.
          scale_and_offset 2 1 1 r0 outputs scales offsets)
      | KEYPOINT_TD \<Rightarrow>
          then_do (len_array outputs) (\<lambda>n.
          then_do (len_array scales) (\<lambda>ns.
          if n \<noteq> ns then cardinality_error outputs scales offsets
          else then_do (len_array offsets) (\<lambda>no.
          if ns \<noteq> no then cardinality_error outputs scales offsets
          else if n = 0 then Inr outputs
          else then_do (for_each rescale_individual
                          (zip (rows outputs) (zip (rows scales) (rows offsets))))
                 np_stack))))"

text \<open>The loop over \<^verbatim>\<open>predictions.items()\<close>, filling \<^verbatim>\<open>updated_predictions\<close>.\<close>

fun rescale_loop ::
  "RescaleAndOffset \<Rightarrow> ('a::{times,plus}) ndarray \<Rightarrow> 'a ndarray \<Rightarrow> (string \<times> 'a ndarray) list
   \<Rightarrow> 'a outputs \<Rightarrow> error + 'a outputs" where
  "rescale_loop self scales offsets [] updated = Inr updated"
| "rescale_loop self scales offsets ((name, outputs) # items) updated =
     (if name \<in> set (keys_to_rescale self)
      then (case rescale_outputs (mode self) outputs scales offsets of
              Inl e \<Rightarrow> Inl e
            | Inr rescaled \<Rightarrow>
                rescale_loop self scales offsets items (dict_set updated name rescaled))
      else rescale_loop self scales offsets items (dict_set updated name outputs))"

text \<open>
  The call builds a new mapping and never writes to the one it is given (every array it
  writes to is a copy), so the state in which it leaves its input, the first component
  of the result, is the input.
\<close>

definition RescaleAndOffset_call ::
  "RescaleAndOffset \<Rightarrow> ('a::{times,plus}) outputs \<Rightarrow> 'a Context
   \<Rightarrow> 'a outputs \<times> (error + ('a outputs \<times> 'a Context))" where
  "RescaleAndOffset_call self predictions context =
     (if ''scales'' \<notin> set (dict_keys context) \<and> ''offsets'' \<notin> set (dict_keys context)
      then (predictions, Inr (predictions, context))
      else (predictions,
            then_do (dict_get context ''scales'') (\<lambda>scales.
            then_do (dict_get context ''offsets'') (\<lambda>offsets.
            then_do (rescale_loop self scales offsets predictions []) (\<lambda>updated.
            Inr (updated, context))))))"

section \<open>The other stages and the builders\<close>

record BboxToCoco =
  bounding_box_keys :: "string list"

record AddContextToOutput =
  keys :: "string list"

datatype Postprocessor =
    Concatenate ConcatenateOutputs
  | Rescale RescaleAndOffset
  | Pad PadOutputs
  | ToCoco BboxToCoco
  | AddContext AddContextToOutput

record ComposePostprocessor =
  components :: "Postprocessor list"

text \<open>
  The builders. The elements of the list of components are evaluated in order, and the
  arguments of a constructor before the constructor is called; the first exception ends
  the builder. In \<^verbatim>\<open>build_bottom_up_postprocessor\<close> the branch for unique bodyparts
  assigns \<^verbatim>\<open>empty_shapes\<close> anew, with the entry for \<^verbatim>\<open>bodyparts\<close> only.
\<close>

definition build_bottom_up_postprocessor :: "int \<Rightarrow> int \<Rightarrow> int \<Rightarrow> error + ComposePostprocessor" where
  "build_bottom_up_postprocessor max_inds num_bodyparts num_unique_bodyparts =
     (let keys0 = [(''bodyparts'', (''bodypart'', ''poses''))];
          shapes0 = [(''bodyparts'', [num_bodyparts, 3])];
          rescale0 = [''bodyparts''];
          keys1 = (if num_unique_bodyparts > 0
                   then dict_set keys0 ''unique_bodyparts'' (''unique_bodypart'', ''poses'')
                   else keys0);
          shapes1 = (if num_unique_bodyparts > 0
                     then [(''bodyparts'', [num_bodyparts, 3])]
                     else shapes0);
          rescale1 = (if num_unique_bodyparts > 0
                      then rescale0 @ [''unique_bodyparts'']
                      else rescale0)
      in then_do (ConcatenateOutputs_init keys1 (Some shapes1) True) (\<lambda>concatenate.
         then_do (RescaleAndOffset_attr ''DataType'' ''KEYPOINT'') (\<lambda>m.
         then_do (RescaleAndOffset_init ''keys_to_rescale'' rescale1 ''data'' m) (\<lambda>rescale.
         Inr \<lparr>components =
               [Concatenate concatenate,
                Rescale rescale,
                Pad (PadOutputs_init
                       [(''bodyparts'', max_inds), (''unique_bodyparts'', 0)] (- 1))]\<rparr>))))"

definition build_top_down_postprocessor :: "int \<Rightarrow> int \<Rightarrow> int \<Rightarrow> error + ComposePostprocessor" where
  "build_top_down_postprocessor max_inds num_bodyparts num_unique_bodyparts =
     (let keys0 = [(''bodyparts'', (''bodypart'', ''poses''))];
          shapes0 = [(''bodyparts'', [num_bodyparts, 3])];
          rescale0 = [''bodyparts''];
          keys1 = (if num_unique_bodyparts > 0
                   then dict_set keys0 ''unique_bodyparts'' (''unique_bodypart'', ''poses'')
                   else keys0);
          shapes1 = (if num_unique_bodyparts > 0
                     then dict_set shapes0 ''unique_bodyparts'' [num_unique_bodyparts, 3]
                     else shapes0);
          rescale1 = (if num_unique_bodyparts > 0
                      then rescale0 @ [''unique_bodyparts'']
                      else rescale0)
      in then_do (ConcatenateOutputs_init keys1 (Some shapes1) True) (\<lambda>concatenate.
         then_do (RescaleAndOffset_attr ''DataType'' ''KEYPOINT_TD'') (\<lambda>m.
         then_do (RescaleAndOffset_init ''keys_to_rescale'' rescale1 ''data'' m) (\<lambda>rescale.
         Inr \<lparr>components =
               [Concatenate concatenate,
                Rescale rescale,
                AddContext \<lparr>keys = [''bboxes'', ''bbox_scores'']\<rparr>,
                Pad (PadOutputs_init
                       [(''bodyparts'', max_inds), (''bboxes'', max_inds),
                        (''bbox_scores'', max_inds), (''unique_bodyparts'', 0)] (- 1))]\<rparr>))))"

definition build_detector_postprocessor :: "unit \<Rightarrow> error + ComposePostprocessor" where
  "build_detector_postprocessor u =
     then_do (ConcatenateOutputs_init
                [(''bboxes'', (''detection'', ''bboxes'')),
                 (''bbox_scores'', (''detection'', ''scores''))] None False) (\<lambda>concatenate.
     then_do (Inr \<lparr>bounding_box_keys = [''bboxes'']\<rparr>) (\<lambda>to_coco.
     then_do (RescaleAndOffset_attr ''DataType'' ''BBOX_XYWH'') (\<lambda>m.
     then_do (RescaleAndOffset_init ''keys_to_rescale'' [''bboxes''] ''data'' m) (\<lambda>rescale.
     Inr \<lparr>components = [Concatenate concatenate, ToCoco to_coco, Rescale rescale]\<rparr>))))"

section \<open>Properties of the builders\<close>

text \<open>
  C1. The bottom-up builder should return, for every number of unique bodyparts above
  zero, a pipeline whose concatenation stage has an empty shape for \<^verbatim>\<open>bodyparts\<close>
  and for \<^verbatim>\<open>unique_bodyparts\<close>. The code does not return: the branch for unique
  bodyparts adds the key \<^verbatim>\<open>unique_bodyparts\<close> to the keys to concatenate but
  rebuilds the empty shapes with \<^verbatim>\<open>bodyparts\<close> alone, so the constructor of
  \<^verbatim>\<open>ConcatenateOutputs\<close> raises ValueError.
\<close>

theorem build_bottom_up_unique_bodyparts_raises:
  "0 < num_unique_bodyparts \<Longrightarrow>
   build_bottom_up_postprocessor max_inds num_bodyparts num_unique_bodyparts = Inl ValueError"
  by (simp add: build_bottom_up_postprocessor_def ConcatenateOutputs_init_def
      dict_set_def dict_keys_def then_do_def)

theorem build_bottom_up_unique_bodyparts_raises_witness:
  "(0::int) < 1 \<and> build_bottom_up_postprocessor 3 5 1 = Inl ValueError"
  using build_bottom_up_unique_bodyparts_raises [of 1 3 5] by simp

text \<open>
  Without unique bodyparts the constructor of the first stage succeeds, and the builder
  stops at the next expression, \<^verbatim>\<open>RescaleAndOffset.DataType\<close>: the class has no
  such attribute. The top-down builder stops there too, although it stores both empty
  shapes.
\<close>

lemma build_bottom_up_without_unique_raises:
  "\<not> 0 < num_unique_bodyparts \<Longrightarrow>
   build_bottom_up_postprocessor max_inds num_bodyparts num_unique_bodyparts =
     Inl AttributeError"
  by (simp add: build_bottom_up_postprocessor_def ConcatenateOutputs_init_def Let_def
      dict_set_def dict_keys_def then_do_def RescaleAndOffset_attr_def)

lemma build_top_down_raises:
  "build_top_down_postprocessor max_inds num_bodyparts num_unique_bodyparts =
     Inl AttributeError"
  by (cases "0 < num_unique_bodyparts")
     (simp_all add: build_top_down_postprocessor_def ConcatenateOutputs_init_def Let_def
      dict_set_def dict_keys_def then_do_def RescaleAndOffset_attr_def)

text \<open>
  C2. The detector builder should return the three stages concatenate, box conversion,
  rescale in \<^verbatim>\<open>BBOX_XYWH\<close> mode. Every call raises AttributeError instead: the
  mode is looked up as \<^verbatim>\<open>RescaleAndOffset.DataType.BBOX_XYWH\<close>, and the enumeration
  of the class is called \<^verbatim>\<open>Mode\<close>.
\<close>

theorem build_detector_postprocessor_raises:
  "build_detector_postprocessor u = Inl AttributeError"
  by (simp add: build_detector_postprocessor_def ConcatenateOutputs_init_def
      RescaleAndOffset_attr_def then_do_def)

section \<open>Properties of ConcatenateOutputs\<close>

text \<open>
  C10, as stated, at a stage with no key to concatenate: built with the defaults (no
  empty shapes, \<^verbatim>\<open>create_empty_outputs=False\<close>) and applied to an empty list of
  candidates, it returns an empty mapping and raises nothing, since the comprehension
  over the keys never reaches \<^verbatim>\<open>self.empty_shapes[name]\<close>.
\<close>

theorem ConcatenateOutputs_no_keys_returns:
  "ConcatenateOutputs_init [] None False =
     Inr \<lparr>keys_to_concatenate = [], empty_shapes = None, create_empty_outputs = False\<rparr> \<and>
   ConcatenateOutputs_call
     \<lparr>keys_to_concatenate = [], empty_shapes = None, create_empty_outputs = False\<rparr>
     ([] :: int prediction list) [] = Inr ([], [])"
  by (simp add: ConcatenateOutputs_init_def ConcatenateOutputs_call_def dict_keys_def
      dict_of_items_def)

text \<open>
  C10, amended: with at least one key to concatenate, a stage built with the defaults
  is constructed without error, and applied to an empty list of candidates it raises
  TypeError, whatever the flag says: the branch for an empty list subscripts the absent
  mapping of empty shapes.
\<close>

theorem ConcatenateOutputs_defaults_raise_on_empty:
  "ks \<noteq> [] \<Longrightarrow>
   ConcatenateOutputs_init ks None False =
     Inr \<lparr>keys_to_concatenate = ks, empty_shapes = None, create_empty_outputs = False\<rparr> \<and>
   ConcatenateOutputs_call
     \<lparr>keys_to_concatenate = ks, empty_shapes = None, create_empty_outputs = False\<rparr>
     [] context = Inl TypeError"
  by (cases ks)
     (simp_all add: ConcatenateOutputs_init_def ConcatenateOutputs_call_def dict_keys_def
      empty_shape_of_def then_do_def)

theorem ConcatenateOutputs_defaults_raise_on_empty_witness:
  "[(''bboxes'', (''detection'', ''bboxes'')), (''bbox_scores'', (''detection'', ''scores''))] \<noteq> [] \<and>
   ConcatenateOutputs_call
     \<lparr>keys_to_concatenate =
        [(''bboxes'', (''detection'', ''bboxes'')), (''bbox_scores'', (''detection'', ''scores''))],
      empty_shapes = None, create_empty_outputs = False\<rparr>
     ([] :: int prediction list) [] = Inl TypeError"
  using ConcatenateOutputs_defaults_raise_on_empty
    [of "[(''bboxes'', (''detection'', ''bboxes'')), (''bbox_scores'', (''detection'', ''scores''))]"
        "[] :: int Context"]
  by simp








lemma for_each_length: "for_each f xs = Inr ys \<Longrightarrow> length ys = length xs"
  by (induction xs arbitrary: ys) (auto split: sum.splits)

lemma np_concatenate_common_tail:
  "arrays \<noteq> [] \<Longrightarrow> list_all (\<lambda>a. shape a \<noteq> [] \<and> tl (shape a) = t) arrays \<Longrightarrow>
   np_concatenate arrays =
     Inr \<lparr>shape = sum_list (map (\<lambda>a. hd (shape a)) arrays) # t,
          data = concat (map data arrays)\<rparr>"
  by (cases arrays) (auto simp: np_concatenate_def split: list.splits)

lemma map_of_fold_items:
  "distinct (map fst items) \<Longrightarrow>
   map_of (fold (\<lambda>(name, hv) d. dict_set d name (g name)) items d) k =
     (if k \<in> fst ` set items then Some (g k) else map_of d k)"
  by (induction items arbitrary: d) (auto simp: dict_set_def update_conv')

lemma concatenate_loop_joined:
  assumes "list_all (\<lambda>(name, head_name, val_name).
             \<exists>arrays. candidate_arrays predictions head_name val_name = Inr arrays \<and>
                      np_concatenate arrays = Inr (g name)) items"
  shows "concatenate_loop items predictions outputs =
         Inr (fold (\<lambda>(name, hv) d. dict_set d name (g name)) items outputs)"
  using assms
proof (induction items arbitrary: outputs)
  case Nil
  then show ?case by simp
next
  case (Cons item items)
  obtain name head_name val_name where item: "item = (name, head_name, val_name)"
    by (cases item)
  from Cons.prems item obtain arrays where
    "candidate_arrays predictions head_name val_name = Inr arrays"
    "np_concatenate arrays = Inr (g name)"
    and rest: "list_all (\<lambda>(name, head_name, val_name).
             \<exists>arrays. candidate_arrays predictions head_name val_name = Inr arrays \<and>
                      np_concatenate arrays = Inr (g name)) items"
    by auto
  then show ?case by (simp add: item Cons.IH [OF rest])
qed

lemma take_drop_concat:
  "list_all (\<lambda>xs. length xs = r) xss \<Longrightarrow> i < length xss \<Longrightarrow>
   take r (drop (i * r) (concat xss)) = xss ! i"
proof (induction xss arbitrary: i)
  case Nil
  then show ?case by simp
next
  case (Cons xs xss)
  then show ?case by (cases i) simp_all
qed

lemma length_concat_uniform:
  "list_all (\<lambda>xs. length xs = r) xss \<Longrightarrow> length (concat xss) = length xss * r"
  by (induction xss) simp_all

lemma select_row_of_concat:
  assumes "list_all (\<lambda>xs. length xs = prod_list t) xss" and "i < length xss"
  shows "select 0 \<lparr>shape = length xss # t, data = concat xss\<rparr> i =
         Inr \<lparr>shape = t, data = xss ! i\<rparr>"
  using assms
  by (simp add: select_def take_drop_concat length_concat_uniform)


text \<open>
  C5, as stated, fails: the stage calls \<^verbatim>\<open>np.concatenate\<close>, which joins along the
  existing leading axis and adds none. Two candidates with arrays of shape \<open>(2, 3)\<close>
  give an output of shape \<open>(4, 3)\<close>, where stacking gives \<open>(2, 2, 3)\<close>, and row 1 of
  the output is the second row of candidate 0, not the data of candidate 1.
\<close>

theorem ConcatenateOutputs_stacks_counterexample:
  "ConcatenateOutputs_call
     \<lparr>keys_to_concatenate = [(''bodyparts'', (''bodypart'', ''poses''))],
      empty_shapes = None, create_empty_outputs = False\<rparr>
     [[(''bodypart'', [(''poses'', \<lparr>shape = [2, 3], data = [1, 2, 3, 4, 5, 6 :: int]\<rparr>)])],
      [(''bodypart'', [(''poses'', \<lparr>shape = [2, 3], data = [7, 8, 9, 10, 11, 12]\<rparr>)])]] [] =
     Inr ([(''bodyparts'',
            \<lparr>shape = [4, 3], data = [1, 2, 3, 4, 5, 6, 7, 8, 9, 10, 11, 12]\<rparr>)], []) \<and>
   np_stack [\<lparr>shape = [2, 3], data = [1, 2, 3, 4, 5, 6 :: int]\<rparr>,
             \<lparr>shape = [2, 3], data = [7, 8, 9, 10, 11, 12]\<rparr>] =
     Inr \<lparr>shape = [2, 2, 3], data = [1, 2, 3, 4, 5, 6, 7, 8, 9, 10, 11, 12]\<rparr> \<and>
   select 0 \<lparr>shape = [4, 3], data = [1, 2, 3, 4, 5, 6, 7, 8, 9, 10, 11, 12 :: int]\<rparr> 1 =
     Inr \<lparr>shape = [3], data = [4, 5, 6]\<rparr>"
  by (simp add: ConcatenateOutputs_call_def candidate_arrays_def dict_get_def dict_set_def
      then_do_def np_concatenate_def np_stack_def select_def)

text \<open>
  The loop on the arrays that the comprehension collects, whatever they are.
\<close>

lemma concatenate_joins_arrays:
  assumes nonempty: "predictions \<noteq> []"
    and dist: "distinct (dict_keys (keys_to_concatenate self))"
    and arrays: "list_all (\<lambda>(name, head_name, val_name).
                   candidate_arrays predictions head_name val_name = Inr (arrs name) \<and>
                   list_all (\<lambda>a. shape a \<noteq> [] \<and> tl (shape a) = tails name) (arrs name))
                 (keys_to_concatenate self)"
  shows "\<exists>outputs.
           ConcatenateOutputs_call self predictions context = Inr (outputs, context) \<and>
           (\<forall>name \<in> set (dict_keys (keys_to_concatenate self)). \<exists>out.
              map_of outputs name = Some out \<and>
              shape out = sum_list (map (\<lambda>a. hd (shape a)) (arrs name)) # tails name \<and>
              data out = concat (map data (arrs name)) \<and>
              (list_all (\<lambda>a. hd (shape a) = 1 \<and> wf_array a) (arrs name) \<longrightarrow>
                 shape out = length predictions # tails name \<and>
                 (\<forall>i < length predictions.
                    select 0 out i = Inr \<lparr>shape = tails name, data = data (arrs name ! i)\<rparr>)))"
proof -
  let ?ks = "keys_to_concatenate self"
  let ?g = "\<lambda>name. \<lparr>shape = sum_list (map (\<lambda>a. hd (shape a)) (arrs name)) # tails name,
                      data = concat (map data (arrs name))\<rparr>"
  let ?outputs = "fold (\<lambda>(name, hv) d. dict_set d name (?g name)) ?ks []"
  have len: "length (arrs name) = length predictions"
    if "(name, head_name, val_name) \<in> set ?ks" for name head_name val_name
  proof -
    from arrays that have "candidate_arrays predictions head_name val_name = Inr (arrs name)"
      by (auto simp: list_all_iff)
    then show ?thesis unfolding candidate_arrays_def by (rule for_each_length)
  qed
  have joined: "list_all (\<lambda>(name, head_name, val_name).
      \<exists>arrays. candidate_arrays predictions head_name val_name = Inr arrays \<and>
               np_concatenate arrays = Inr (?g name)) ?ks"
    unfolding list_all_iff
  proof (intro ballI, clarify)
    fix name head_name val_name
    assume mem: "(name, head_name, val_name) \<in> set ?ks"
    with arrays have c: "candidate_arrays predictions head_name val_name = Inr (arrs name)"
      and t: "list_all (\<lambda>a. shape a \<noteq> [] \<and> tl (shape a) = tails name) (arrs name)"
      by (auto simp: list_all_iff)
    from len [OF mem] nonempty have "arrs name \<noteq> []" by auto
    then have "np_concatenate (arrs name) = Inr (?g name)"
      using t by (rule np_concatenate_common_tail)
    with c show "\<exists>arrays. candidate_arrays predictions head_name val_name = Inr arrays \<and>
        np_concatenate arrays = Inr (?g name)"
      by blast
  qed
  have loop: "concatenate_loop ?ks predictions [] = Inr ?outputs"
    by (rule concatenate_loop_joined [OF joined])
  have call: "ConcatenateOutputs_call self predictions context = Inr (?outputs, context)"
    using nonempty by (simp add: ConcatenateOutputs_call_def loop)
  have each: "\<exists>out. map_of ?outputs name = Some out \<and>
      shape out = sum_list (map (\<lambda>a. hd (shape a)) (arrs name)) # tails name \<and>
      data out = concat (map data (arrs name)) \<and>
      (list_all (\<lambda>a. hd (shape a) = 1 \<and> wf_array a) (arrs name) \<longrightarrow>
         shape out = length predictions # tails name \<and>
         (\<forall>i < length predictions.
            select 0 out i = Inr \<lparr>shape = tails name, data = data (arrs name ! i)\<rparr>))"
    if key: "name \<in> set (dict_keys ?ks)" for name
  proof -
    from key obtain head_name val_name where mem: "(name, head_name, val_name) \<in> set ?ks"
      by (auto simp: dict_keys_def)
    have m: "map_of ?outputs name = Some (?g name)"
      using dist key by (simp add: map_of_fold_items dict_keys_def)
    have rows_ok: "shape (?g name) = length predictions # tails name \<and>
        (\<forall>i < length predictions.
           select 0 (?g name) i = Inr \<lparr>shape = tails name, data = data (arrs name ! i)\<rparr>)"
      if one: "list_all (\<lambda>a. hd (shape a) = 1 \<and> wf_array a) (arrs name)"
    proof -
      from arrays mem have t: "list_all (\<lambda>a. shape a \<noteq> [] \<and> tl (shape a) = tails name) (arrs name)"
        by (auto simp: list_all_iff)
      have shp: "shape a = 1 # tails name" if "a \<in> set (arrs name)" for a
        using t one that by (cases "shape a") (auto simp: list_all_iff)
      have "map (\<lambda>a. hd (shape a)) (arrs name) = replicate (length (arrs name)) 1"
        using shp by (simp add: map_replicate_const [symmetric] cong: map_cong)
      then have total: "sum_list (map (\<lambda>a. hd (shape a)) (arrs name)) = length predictions"
        by (simp add: sum_list_replicate len [OF mem])
      have uniform: "list_all (\<lambda>xs. length xs = prod_list (tails name)) (map data (arrs name))"
        using one shp by (auto simp: list_all_iff wf_array_def)
      have "select 0 \<lparr>shape = length (map data (arrs name)) # tails name,
                      data = concat (map data (arrs name))\<rparr> i =
            Inr \<lparr>shape = tails name, data = map data (arrs name) ! i\<rparr>"
        if "i < length predictions" for i
        using uniform that by (intro select_row_of_concat) (simp_all add: len [OF mem])
      then show ?thesis by (simp add: total len [OF mem])
    qed
    from m rows_ok show ?thesis by auto
  qed
  from call each show ?thesis by blast
qed

lemma for_each_nth:
  "length ys = length xs \<Longrightarrow> (\<And>i. i < length xs \<Longrightarrow> f (xs ! i) = Inr (ys ! i)) \<Longrightarrow>
   for_each f xs = Inr ys"
proof (induction xs arbitrary: ys)
  case Nil
  then show ?case by simp
next
  case (Cons x xs)
  then obtain y ys' where ys: "ys = y # ys'" by (cases ys) auto
  have "f x = Inr y" using Cons.prems(2) [of 0] ys by simp
  moreover have "for_each f xs = Inr ys'"
  proof (rule Cons.IH)
    show "length ys' = length xs" using Cons.prems(1) ys by simp
    show "f (xs ! i) = Inr (ys' ! i)" if "i < length xs" for i
      using Cons.prems(2) [of "Suc i"] that ys by simp
  qed
  ultimately show ?case by (simp add: ys)
qed

text \<open>
  C5, amended: take a non-empty list of candidates such that, for each configured key,
  candidate \<open>i\<close> holds under the key's head and value names an array \<open>arr name i\<close> with
  a leading axis and the shape \<open>tails name\<close> after it. Then the stage returns for each key
  the arrays joined along that axis in the order of the candidates: the leading dimension
  of the output is the sum of the candidates' leading dimensions and its elements are
  those of candidate 0, then candidate 1, and so on. When every candidate's array has
  leading dimension 1, the output has one row per candidate and row \<open>i\<close> is the row of
  candidate \<open>i\<close>.
\<close>

theorem ConcatenateOutputs_joins_in_order:
  assumes nonempty: "predictions \<noteq> []"
    and dist: "distinct (map fst (keys_to_concatenate self))"
    and cands: "\<forall>(name, head_name, val_name) \<in> set (keys_to_concatenate self).
                  \<forall>i < length predictions. \<exists>heads.
                    map_of (predictions ! i) head_name = Some heads \<and>
                    map_of heads val_name = Some (arr name i) \<and>
                    shape (arr name i) \<noteq> [] \<and> tl (shape (arr name i)) = tails name"
  shows "\<exists>outputs.
           ConcatenateOutputs_call self predictions context = Inr (outputs, context) \<and>
           (\<forall>name \<in> fst ` set (keys_to_concatenate self). \<exists>out.
              map_of outputs name = Some out \<and>
              shape out =
                sum_list (map (\<lambda>i. hd (shape (arr name i))) [0..<length predictions]) #
                tails name \<and>
              data out = concat (map (\<lambda>i. data (arr name i)) [0..<length predictions]) \<and>
              ((\<forall>i < length predictions. hd (shape (arr name i)) = 1 \<and> wf_array (arr name i)) \<longrightarrow>
                 shape out = length predictions # tails name \<and>
                 (\<forall>i < length predictions.
                    select 0 out i = Inr \<lparr>shape = tails name, data = data (arr name i)\<rparr>)))"
proof -
  let ?ks = "keys_to_concatenate self"
  let ?n = "length predictions"
  let ?arrs = "\<lambda>name. map (arr name) [0..<?n]"
  have dist': "distinct (dict_keys ?ks)"
    using dist by (simp add: dict_keys_def)
  have arrays: "list_all (\<lambda>(name, head_name, val_name).
                   candidate_arrays predictions head_name val_name = Inr (?arrs name) \<and>
                   list_all (\<lambda>a. shape a \<noteq> [] \<and> tl (shape a) = tails name) (?arrs name))
                 ?ks"
    unfolding list_all_iff
  proof (intro ballI, clarify)
    fix name head_name val_name
    assume mem: "(name, head_name, val_name) \<in> set ?ks"
    have at: "\<exists>heads. map_of (predictions ! i) head_name = Some heads \<and>
                    map_of heads val_name = Some (arr name i) \<and>
                    shape (arr name i) \<noteq> [] \<and> tl (shape (arr name i)) = tails name"
      if "i < ?n" for i
      using cands mem that by blast
    have collected: "candidate_arrays predictions head_name val_name = Inr (?arrs name)"
      unfolding candidate_arrays_def
    proof (rule for_each_nth)
      show "length (?arrs name) = length predictions" by simp
      show "then_do (dict_get (predictions ! i) head_name) (\<lambda>h. dict_get h val_name) =
            Inr (?arrs name ! i)" if "i < length predictions" for i
        using at [OF that] that by (auto simp: then_do_def dict_get_def)
    qed
    have sized: "shape a \<noteq> [] \<and> tl (shape a) = tails name" if "a \<in> set (?arrs name)" for a
    proof -
      from that obtain i where "i < ?n" and "a = arr name i" by auto
      with at [of i] show ?thesis by blast
    qed
    from collected sized
    show "candidate_arrays predictions head_name val_name = Inr (?arrs name) \<and>
          (\<forall>a \<in> set (?arrs name). shape a \<noteq> [] \<and> tl (shape a) = tails name)"
      by blast
  qed
  from concatenate_joins_arrays [OF nonempty dist' arrays, of "context"]
  obtain outputs where
    call: "ConcatenateOutputs_call self predictions context = Inr (outputs, context)" and
    each: "\<forall>name \<in> set (dict_keys ?ks). \<exists>out.
              map_of outputs name = Some out \<and>
              shape out = sum_list (map (\<lambda>a. hd (shape a)) (?arrs name)) # tails name \<and>
              data out = concat (map data (?arrs name)) \<and>
              (list_all (\<lambda>a. hd (shape a) = 1 \<and> wf_array a) (?arrs name) \<longrightarrow>
                 shape out = length predictions # tails name \<and>
                 (\<forall>i < length predictions.
                    select 0 out i = Inr \<lparr>shape = tails name, data = data (?arrs name ! i)\<rparr>))"
    by blast
  have "\<exists>out.
      map_of outputs name = Some out \<and>
      shape out = sum_list (map (\<lambda>i. hd (shape (arr name i))) [0..<?n]) # tails name \<and>
      data out = concat (map (\<lambda>i. data (arr name i)) [0..<?n]) \<and>
      ((\<forall>i < ?n. hd (shape (arr name i)) = 1 \<and> wf_array (arr name i)) \<longrightarrow>
         shape out = ?n # tails name \<and>
         (\<forall>i < ?n. select 0 out i = Inr \<lparr>shape = tails name, data = data (arr name i)\<rparr>))"
    if key: "name \<in> fst ` set ?ks" for name
  proof -
    from key have "name \<in> set (dict_keys ?ks)" by (simp add: dict_keys_def)
    with each obtain out where
      m: "map_of outputs name = Some out" and
      shp: "shape out = sum_list (map (\<lambda>a. hd (shape a)) (?arrs name)) # tails name" and
      dat: "data out = concat (map data (?arrs name))" and
      one: "list_all (\<lambda>a. hd (shape a) = 1 \<and> wf_array a) (?arrs name) \<longrightarrow>
                 shape out = length predictions # tails name \<and>
                 (\<forall>i < length predictions.
                    select 0 out i = Inr \<lparr>shape = tails name, data = data (?arrs name ! i)\<rparr>)"
      by blast
    have shp': "shape out = sum_list (map (\<lambda>i. hd (shape (arr name i))) [0..<?n]) # tails name"
      using shp by (simp add: comp_def)
    have dat': "data out = concat (map (\<lambda>i. data (arr name i)) [0..<?n])"
      using dat by (simp add: comp_def)
    have one': "shape out = ?n # tails name \<and>
         (\<forall>i < ?n. select 0 out i = Inr \<lparr>shape = tails name, data = data (arr name i)\<rparr>)"
      if all: "\<forall>i < ?n. hd (shape (arr name i)) = 1 \<and> wf_array (arr name i)"
    proof -
      from all have "list_all (\<lambda>a. hd (shape a) = 1 \<and> wf_array a) (?arrs name)"
        by (simp add: list_all_iff)
      with one show ?thesis by simp
    qed
    from m shp' dat' one' show ?thesis by blast
  qed
  with call show ?thesis by blast
qed

theorem ConcatenateOutputs_joins_in_order_witness:
  "\<exists>outputs.
     ConcatenateOutputs_call
       \<lparr>keys_to_concatenate = [(''bodyparts'', (''bodypart'', ''poses''))],
        empty_shapes = None, create_empty_outputs = False\<rparr>
       [[(''bodypart'', [(''poses'', \<lparr>shape = [1, 3], data = [1, 2, 3 :: int]\<rparr>)])],
        [(''bodypart'', [(''poses'', \<lparr>shape = [1, 3], data = [4, 5, 6]\<rparr>)])]] [] =
       Inr (outputs, []) \<and>
     (\<exists>out. map_of outputs ''bodyparts'' = Some out \<and> shape out = [2, 3] \<and>
        data out = [1, 2, 3, 4, 5, 6] \<and>
        select 0 out 0 = Inr \<lparr>shape = [3], data = [1, 2, 3]\<rparr> \<and>
        select 0 out 1 = Inr \<lparr>shape = [3], data = [4, 5, 6]\<rparr>)"
proof -
  let ?self = "\<lparr>keys_to_concatenate = [(''bodyparts'', (''bodypart'', ''poses''))],
        empty_shapes = None, create_empty_outputs = False\<rparr>"
  let ?a0 = "\<lparr>shape = [1, 3], data = [1, 2, 3 :: int]\<rparr>"
  let ?a1 = "\<lparr>shape = [1, 3], data = [4, 5, 6 :: int]\<rparr>"
  let ?p = "[[(''bodypart'', [(''poses'', ?a0)])], [(''bodypart'', [(''poses'', ?a1)])]]"
  let ?arr = "\<lambda>(name :: string) (i :: nat). if i = 0 then ?a0 else ?a1"
  let ?tails = "\<lambda>name :: string. [3 :: nat]"
  have two: "i < 2 \<longleftrightarrow> i = 0 \<or> i = 1" for i :: nat by auto
  have a: "?p \<noteq> []" by simp
  have b: "distinct (map fst (keys_to_concatenate ?self))" by simp
  have c: "\<forall>(name, head_name, val_name) \<in> set (keys_to_concatenate ?self).
                  \<forall>i < length ?p. \<exists>heads.
                    map_of (?p ! i) head_name = Some heads \<and>
                    map_of heads val_name = Some (?arr name i) \<and>
                    shape (?arr name i) \<noteq> [] \<and> tl (shape (?arr name i)) = ?tails name"
    by (auto simp: two)
  from ConcatenateOutputs_joins_in_order [OF a b c, of "[]"]
  obtain outputs out where
    call: "ConcatenateOutputs_call ?self ?p [] = Inr (outputs, [])" and
    m: "map_of outputs ''bodyparts'' = Some out" and
    dat: "data out = concat (map (\<lambda>i. data (?arr ''bodyparts'' i)) [0..<length ?p])" and
    one: "(\<forall>i < length ?p. hd (shape (?arr ''bodyparts'' i)) = 1 \<and> wf_array (?arr ''bodyparts'' i)) \<longrightarrow>
       shape out = length ?p # ?tails ''bodyparts'' \<and>
       (\<forall>i < length ?p.
          select 0 out i = Inr \<lparr>shape = ?tails ''bodyparts'', data = data (?arr ''bodyparts'' i)\<rparr>)"
    by auto
  have "\<forall>i < length ?p. hd (shape (?arr ''bodyparts'' i)) = 1 \<and> wf_array (?arr ''bodyparts'' i)"
    by (simp add: wf_array_def)
  with one have shp: "shape out = [2, 3]" and
    sel: "\<forall>i < 2. select 0 out i = Inr \<lparr>shape = [3], data = data (?arr ''bodyparts'' i)\<rparr>"
    by simp_all
  from sel have "select 0 out 0 = Inr \<lparr>shape = [3], data = [1, 2, 3]\<rparr>"
    and "select 0 out 1 = Inr \<lparr>shape = [3], data = [4, 5, 6]\<rparr>"
    by (simp_all add: two)
  moreover have "data out = [1, 2, 3, 4, 5, 6]"
    using dat by (simp add: upt_rec)
  ultimately show ?thesis using call m shp by blast
qed

section \<open>Properties of PadOutputs\<close>

text \<open>
  C6. The rows that \<^verbatim>\<open>PadOutputs\<close> appends should hold the pad value given to the
  constructor. The call never reads \<^verbatim>\<open>self.pad_value\<close>; it appends
  \<^verbatim>\<open>-np.ones(...)\<close>. With pad value 0 and target 2, a one-row array gets a second
  row holding \<open>-1\<close>.
\<close>

theorem PadOutputs_pads_with_minus_one:
  "PadOutputs_call (PadOutputs_init [(''bodyparts'', 2)] 0)
     [(''bodyparts'', \<lparr>shape = [1, 1], data = [5 :: int]\<rparr>)] [] =
   ([(''bodyparts'', \<lparr>shape = [2, 1], data = [5, - 1]\<rparr>)],
    Inr ([(''bodyparts'', \<lparr>shape = [2, 1], data = [5, - 1]\<rparr>)], []))"
  by (simp add: PadOutputs_call_def PadOutputs_init_def dict_keys_def dict_get_def dict_set_def
      len_array_def np_concatenate_def negate_def np_ones_def shape_fits_def max_intp_def
      itemsize_def Let_def)

text \<open>The pad value has no influence on the loop at all.\<close>

lemma PadOutputs_loop_ignores_pad_value:
  "PadOutputs_loop (self\<lparr>pad_value := v\<rparr>) names predictions =
   PadOutputs_loop self names predictions"
  by (induction self names predictions rule: PadOutputs_loop.induct)
     (simp_all split: sum.splits)

lemma np_ones_padding:
  "shape_fits (p # map int t) \<Longrightarrow>
   np_ones (p # map int t) =
     Inr \<lparr>shape = nat p # t, data = replicate (nat p * prod_list t) 1\<rparr>"
  by (simp add: np_ones_def comp_def)

lemma np_concatenate_padding:
  "shape arr = n # t \<Longrightarrow>
   np_concatenate [arr, negate \<lparr>shape = p # t, data = replicate (p * prod_list t) 1\<rparr>] =
     Inr \<lparr>shape = (n + p) # t, data = data arr @ replicate (p * prod_list t) (- 1)\<rparr>"
  by (simp add: np_concatenate_def negate_def)

lemma dict_get_Inl: "dict_get d k = Inl e \<Longrightarrow> e = KeyError"
  by (simp add: dict_get_def split: option.splits)

lemma dict_get_Inr_key: "dict_get d k = Inr v \<Longrightarrow> k \<in> set (dict_keys d)"
  by (auto simp: dict_get_def dict_keys_def split: option.splits
      dest: map_of_SomeD intro: rev_image_eqI)

lemma PadOutputs_loop_step:
  "PadOutputs_loop self (name # names) predictions =
     (case dict_get predictions name of
        Inl e \<Rightarrow> (predictions, Inl e)
      | Inr arr \<Rightarrow>
          (case shape arr of
             [] \<Rightarrow> (predictions, Inl TypeError)
           | n # t \<Rightarrow>
               (case dict_get (max_individuals self) name of
                  Inl e \<Rightarrow> (predictions, Inl e)
                | Inr target \<Rightarrow>
                    if int n < target
                    then (if shape_fits ((target - int n) # map int t)
                          then PadOutputs_loop self names
                                 (dict_set predictions name
                                    \<lparr>shape = nat target # t,
                                     data = data arr @
                                            replicate ((nat target - n) * prod_list t) (- 1)\<rparr>)
                          else (predictions, Inl ValueError))
                    else PadOutputs_loop self names predictions)))"
proof -
  have pad: "n + nat (target - int n) = nat target \<and> nat (target - int n) = nat target - n"
    if "int n < target" for n target
    using that by linarith
  have unfit: "np_ones shp = (Inl ValueError :: error + 'a ndarray)" if "\<not> shape_fits shp" for shp
    using that by (simp add: np_ones_def)
  show ?thesis
    by (auto simp: len_array_def Let_def np_ones_padding np_concatenate_padding pad unfit
        split: sum.splits list.splits)
qed

lemma PadOutputs_loop_frame:
  "k \<notin> set (dict_keys (max_individuals self)) \<Longrightarrow>
   map_of (fst (PadOutputs_loop self names predictions)) k = map_of predictions k"
proof (induction names arbitrary: predictions)
  case Nil
  then show ?case by simp
next
  case (Cons name names)
  have other: "name \<noteq> k" if "dict_get (max_individuals self) name = Inr target" for target
    using dict_get_Inr_key [OF that] Cons.prems by blast
  show ?case
    unfolding PadOutputs_loop_step
    by (auto simp: Cons.IH [OF Cons.prems] dict_set_def update_conv'
        dest: other split: sum.splits list.splits)
qed

lemma set_dict_set: "set (dict_set d k v) \<subseteq> insert (k, v) (set d)"
  by (induction d) (auto simp: dict_set_def)

lemma padding_fits_at_target:
  "map_of (max_individuals self) name = Some target \<Longrightarrow> int n < target \<Longrightarrow>
   padding_fits self (name, \<lparr>shape = nat target # t, data = d\<rparr>)"
  by (simp add: padding_fits_def)

lemma PadOutputs_loop_KeyError:
  assumes "k \<in> set names" and "k \<notin> fst ` set (max_individuals self)"
    and "list_all (\<lambda>(name, a). shape a \<noteq> [] \<and> padding_fits self (name, a)) predictions"
  shows "snd (PadOutputs_loop self names predictions) = Inl KeyError"
  using assms(1,3)
proof (induction names arbitrary: predictions)
  case Nil
  then show ?case by simp
next
  case (Cons name names)
  note inv = Cons.prems(2)
  show ?case
  proof (cases "dict_get predictions name")
    case (Inl e)
    then show ?thesis
      unfolding PadOutputs_loop_step using dict_get_Inl [OF Inl] by simp
  next
    case got: (Inr arr)
    then have mem: "(name, arr) \<in> set predictions"
      by (auto simp: dict_get_def split: option.splits dest: map_of_SomeD)
    with inv have sized: "shape arr \<noteq> []" and fits: "padding_fits self (name, arr)"
      by (auto simp: list_all_iff)
    from sized obtain n t where nt: "shape arr = n # t" by (cases "shape arr") auto
    show ?thesis
    proof (cases "dict_get (max_individuals self) name")
      case (Inl e)
      then show ?thesis
        unfolding PadOutputs_loop_step using dict_get_Inl [OF Inl] by (simp add: got nt)
    next
      case target: (Inr target)
      then have m: "map_of (max_individuals self) name = Some target"
        by (simp add: dict_get_def split: option.splits)
      then have "name \<in> fst ` set (max_individuals self)"
        by (metis domI dom_map_of_conv_image_fst)
      with assms(2) Cons.prems(1) have rest: "k \<in> set names" by auto
      show ?thesis
      proof (cases "int n < target")
        case True
        with fits m nt have f: "shape_fits ((target - int n) # map int t)"
          by (simp add: padding_fits_def)
        let ?padded = "\<lparr>shape = nat target # t,
          data = data arr @ replicate ((nat target - n) * prod_list t) (- 1)\<rparr>"
        have "list_all (\<lambda>(name, a). shape a \<noteq> [] \<and> padding_fits self (name, a))
                (dict_set predictions name ?padded)"
          using inv set_dict_set [of predictions name ?padded]
            padding_fits_at_target [OF m True]
          by (auto simp: list_all_iff)
        from Cons.IH [OF rest this] show ?thesis
          unfolding PadOutputs_loop_step by (simp add: got nt target True f)
      next
        case False
        from Cons.IH [OF rest inv] show ?thesis
          unfolding PadOutputs_loop_step by (simp add: got nt target False)
      qed
    qed
  qed
qed

text \<open>
  C8, amended: on outputs whose arrays all have a leading dimension (and whose paddings
  are within the size limit), a key of the outputs that is not configured in
  \<^verbatim>\<open>max_individuals\<close> makes the call raise KeyError instead of succeeding: the loop
  subscripts \<^verbatim>\<open>self.max_individuals[name]\<close> for every key of the outputs. The array
  of a key that is not configured is never modified, also in the state the mapping is
  left in by the exception: only configured keys are ever padded.
\<close>

theorem PadOutputs_unconfigured_key_raises:
  assumes present: "k \<in> fst ` set predictions"
    and unconfigured: "k \<notin> fst ` set (max_individuals self)"
    and sized: "list_all (\<lambda>(name, a). shape a \<noteq> [] \<and> padding_fits self (name, a)) predictions"
  shows "snd (PadOutputs_call self predictions context) = Inl KeyError \<and>
         (\<forall>k'. k' \<notin> fst ` set (max_individuals self) \<longrightarrow>
            map_of (fst (PadOutputs_call self predictions context)) k' = map_of predictions k')"
proof -
  have fst_call: "fst (PadOutputs_call self predictions context) =
      fst (PadOutputs_loop self (dict_keys predictions) predictions)"
    by (cases "PadOutputs_loop self (dict_keys predictions) predictions")
       (simp add: PadOutputs_call_def split: sum.splits)
  have snd_call: "snd (PadOutputs_call self predictions context) = Inl e"
    if "snd (PadOutputs_loop self (dict_keys predictions) predictions) = Inl e" for e
    using that
    by (cases "PadOutputs_loop self (dict_keys predictions) predictions")
       (simp add: PadOutputs_call_def)
  from present have "k \<in> set (dict_keys predictions)" by (simp add: dict_keys_def)
  from PadOutputs_loop_KeyError [OF this unconfigured sized]
  have "snd (PadOutputs_call self predictions context) = Inl KeyError"
    by (rule snd_call)
  moreover have "\<forall>k'. k' \<notin> fst ` set (max_individuals self) \<longrightarrow>
      map_of (fst (PadOutputs_call self predictions context)) k' = map_of predictions k'"
    by (simp add: fst_call PadOutputs_loop_frame dict_keys_def)
  ultimately show ?thesis by blast
qed

text \<open>
  C8, as stated, fails: with \<^verbatim>\<open>bodyparts\<close> configured and a further key
  \<^verbatim>\<open>extra\<close> in the outputs, the call raises KeyError instead of succeeding.
\<close>

theorem PadOutputs_unconfigured_key_counterexample:
  "snd (PadOutputs_call (PadOutputs_init [(''bodyparts'', 2)] (- 1))
     [(''bodyparts'', \<lparr>shape = [1, 1], data = [5 :: int]\<rparr>),
      (''extra'', \<lparr>shape = [1, 1], data = [7]\<rparr>)] []) = Inl KeyError"
  by (simp add: PadOutputs_call_def PadOutputs_init_def dict_keys_def dict_get_def dict_set_def
      len_array_def np_concatenate_def negate_def np_ones_def shape_fits_def max_intp_def
      itemsize_def Let_def)

theorem PadOutputs_unconfigured_key_raises_witness:
  "snd (PadOutputs_call (PadOutputs_init [(''bodyparts'', 2)] (- 1))
     [(''bodyparts'', \<lparr>shape = [1, 1], data = [5 :: int]\<rparr>),
      (''extra'', \<lparr>shape = [1, 1], data = [7]\<rparr>)] []) = Inl KeyError \<and>
   map_of (fst (PadOutputs_call (PadOutputs_init [(''bodyparts'', 2)] (- 1))
     [(''bodyparts'', \<lparr>shape = [1, 1], data = [5 :: int]\<rparr>),
      (''extra'', \<lparr>shape = [1, 1], data = [7]\<rparr>)] [])) ''extra'' =
     Some \<lparr>shape = [1, 1], data = [7]\<rparr>"
proof -
  let ?self = "PadOutputs_init [(''bodyparts'', 2)] (- 1)"
  let ?p = "[(''bodyparts'', \<lparr>shape = [1, 1], data = [5 :: int]\<rparr>),
             (''extra'', \<lparr>shape = [1, 1], data = [7]\<rparr>)]"
  have a: "''extra'' \<in> fst ` set ?p" by simp
  have b: "''extra'' \<notin> fst ` set (max_individuals ?self)"
    by (simp add: PadOutputs_init_def)
  have c: "list_all (\<lambda>(name, a). shape a \<noteq> [] \<and> padding_fits ?self (name, a)) ?p"
    by (simp add: padding_fits_def PadOutputs_init_def shape_fits_def max_intp_def itemsize_def)
  from PadOutputs_unconfigured_key_raises [OF a b c, of "[]"] b
  show ?thesis by simp
qed

lemma padded_idem: "padded target (padded target a) = padded target a"
  by (auto simp: padded_def split: list.splits)

lemma padded_shape_Nil: "shape (padded target a) = [] \<longleftrightarrow> shape a = []"
  by (auto simp: padded_def split: list.splits)

lemma padding_fits_padded:
  "map_of (max_individuals self) name = Some target \<Longrightarrow> padding_fits self (name, a) \<Longrightarrow>
   padding_fits self (name, padded target a)"
  by (auto simp: padding_fits_def padded_def split: list.splits)

lemma dict_set_middle:
  "name \<notin> fst ` set pre \<Longrightarrow>
   dict_set (pre @ (name, a) # ps) name b = pre @ (name, b) # ps"
  by (induction pre) (auto simp: dict_set_def)

lemma dict_get_middle:
  "name \<notin> fst ` set pre \<Longrightarrow> dict_get (pre @ (name, a) # ps) name = Inr a"
  by (induction pre) (auto simp: dict_get_def)

lemma PadOutputs_loop_all_configured:
  assumes "distinct (map fst (pre @ ps))"
    and "list_all (\<lambda>(name, a). shape a \<noteq> [] \<and> name \<in> set (dict_keys (max_individuals self)) \<and>
                 padding_fits self (name, a)) ps"
  shows "PadOutputs_loop self (map fst ps) (pre @ ps) =
         (pre @ map (\<lambda>(name, a). (name, padded (the (map_of (max_individuals self) name)) a)) ps,
          Inr ())"
  using assms
proof (induction ps arbitrary: pre)
  case Nil
  then show ?case by simp
next
  case (Cons entry ps)
  obtain name a where entry: "entry = (name, a)" by (cases entry)
  from Cons.prems entry have fresh: "name \<notin> fst ` set pre"
    and shp: "shape a \<noteq> []"
    and conf: "name \<in> set (dict_keys (max_individuals self))"
    and fits: "padding_fits self (name, a)"
    by auto
  from conf obtain target where target: "map_of (max_individuals self) name = Some target"
    by (auto simp: dict_keys_def) (metis domD dom_map_of_conv_image_fst image_eqI fst_conv)
  from shp obtain n t where nt: "shape a = n # t" by (cases "shape a") auto
  have get_target: "dict_get (max_individuals self) name = Inr target"
    by (simp add: dict_get_def target)
  have rest: "list_all (\<lambda>(name, a). shape a \<noteq> [] \<and> name \<in> set (dict_keys (max_individuals self)) \<and>
                 padding_fits self (name, a)) ps"
    using Cons.prems by simp
  have step: "PadOutputs_loop self (map fst (entry # ps)) (pre @ entry # ps) =
      PadOutputs_loop self (map fst ps) ((pre @ [(name, padded target a)]) @ ps)"
    unfolding entry list.map fst_conv PadOutputs_loop_step
    using fits
    by (simp add: dict_get_middle [OF fresh] dict_set_middle [OF fresh] nt get_target
        padded_def padding_fits_def target)
  have dist: "distinct (map fst ((pre @ [(name, padded target a)]) @ ps))"
    using Cons.prems(1) entry by simp
  show ?case
    unfolding step Cons.IH [OF dist rest]
    by (simp add: entry target)
qed

lemma map_of_map_entries:
  "map_of (map (\<lambda>(k, v). (k, g k v)) ps) k = map_option (g k) (map_of ps k)"
  by (induction ps) auto

text \<open>
  C7. On outputs whose keys are all configured and whose arrays have a leading
  dimension (the paddings being within the size limit of \<^verbatim>\<open>np.ones\<close>), the call
  succeeds and keeps the keys. An array whose leading dimension is
  at or above its target (a target of 0 included) is returned as it is; an array below
  its target keeps its elements and gets exactly \<open>target - len\<close> further rows, so its
  leading dimension becomes the target; and a second call returns what the first did.
\<close>

theorem PadOutputs_never_truncates_idempotent:
  assumes dist: "distinct (dict_keys predictions)"
    and conf: "list_all (\<lambda>(name, a). shape a \<noteq> [] \<and>
                 name \<in> set (dict_keys (max_individuals self)) \<and>
                 padding_fits self (name, a)) predictions"
  shows "\<exists>after.
           PadOutputs_call self predictions context = (after, Inr (after, context)) \<and>
           dict_keys after = dict_keys predictions \<and>
           (\<forall>name a. map_of predictions name = Some a \<longrightarrow>
              (\<exists>n t target out.
                 shape a = n # t \<and> map_of (max_individuals self) name = Some target \<and>
                 map_of after name = Some out \<and>
                 (if int n < target
                  then shape out = nat target # t \<and>
                       data out = data a @ replicate ((nat target - n) * prod_list t) (- 1)
                  else out = a))) \<and>
           PadOutputs_call self after context = (after, Inr (after, context))"
proof -
  let ?g = "\<lambda>name a. padded (the (map_of (max_individuals self) name)) a"
  let ?after = "map (\<lambda>(name, a). (name, ?g name a)) predictions"
  have loop: "PadOutputs_loop self (map fst predictions) predictions = (?after, Inr ())"
    using PadOutputs_loop_all_configured [of "[]" predictions self] dist conf
    by (simp add: dict_keys_def)
  have call: "PadOutputs_call self predictions context = (?after, Inr (?after, context))"
    by (simp add: PadOutputs_call_def dict_keys_def loop)
  have keys_after: "dict_keys ?after = dict_keys predictions"
    by (simp add: dict_keys_def comp_def case_prod_unfold)
  have conf_after: "list_all (\<lambda>(name, a). shape a \<noteq> [] \<and>
      name \<in> set (dict_keys (max_individuals self)) \<and>
      padding_fits self (name, a)) ?after"
    unfolding list_all_iff
  proof (intro ballI, clarify)
    fix name b
    assume "(name, b) \<in> set ?after"
    then obtain a where mem: "(name, a) \<in> set predictions" and b: "b = ?g name a"
      by auto
    from conf mem have shp: "shape a \<noteq> []"
      and c: "name \<in> set (dict_keys (max_individuals self))"
      and f: "padding_fits self (name, a)"
      by (auto simp: list_all_iff)
    from c obtain target where target: "map_of (max_individuals self) name = Some target"
      by (auto simp: dict_keys_def) (metis domD dom_map_of_conv_image_fst image_eqI fst_conv)
    from padding_fits_padded [OF target f] shp c
    show "shape b \<noteq> [] \<and> name \<in> set (dict_keys (max_individuals self)) \<and>
          padding_fits self (name, b)"
      by (simp add: b target padded_shape_Nil)
  qed
  have fst_after: "map fst ?after = map fst predictions"
    by (simp add: comp_def case_prod_unfold)
  have dist_after: "distinct (map fst ([] @ ?after))"
    using dist unfolding append_Nil fst_after by (simp add: dict_keys_def)
  have "PadOutputs_loop self (map fst ?after) ([] @ ?after) =
      ([] @ map (\<lambda>(name, a). (name, ?g name a)) ?after, Inr ())"
    by (rule PadOutputs_loop_all_configured [OF dist_after conf_after])
  then have "PadOutputs_loop self (map fst ?after) ?after =
      (map (\<lambda>(name, a). (name, ?g name a)) ?after, Inr ())"
    by (simp only: append_Nil)
  moreover have "map (\<lambda>(name, a). (name, ?g name a)) ?after = ?after"
    by (simp add: comp_def case_prod_unfold padded_idem)
  ultimately have again: "PadOutputs_call self ?after context = (?after, Inr (?after, context))"
    by (simp add: PadOutputs_call_def dict_keys_def)
  have each: "\<exists>n t target out.
      shape a = n # t \<and> map_of (max_individuals self) name = Some target \<and>
      map_of ?after name = Some out \<and>
      (if int n < target
       then shape out = nat target # t \<and>
            data out = data a @ replicate ((nat target - n) * prod_list t) (- 1)
       else out = a)"
    if m: "map_of predictions name = Some a" for name a
  proof -
    from m have mem: "(name, a) \<in> set predictions" by (rule map_of_SomeD)
    with conf have shp: "shape a \<noteq> []"
      and c: "name \<in> set (dict_keys (max_individuals self))"
      by (auto simp: list_all_iff)
    from c obtain target where target: "map_of (max_individuals self) name = Some target"
      by (auto simp: dict_keys_def) (metis domD dom_map_of_conv_image_fst image_eqI fst_conv)
    from shp obtain n t where nt: "shape a = n # t" by (cases "shape a") auto
    have "map_of ?after name = Some (padded target a)"
      by (simp add: map_of_map_entries m target)
    with nt target show ?thesis by (auto simp: padded_def)
  qed
  from call keys_after each again show ?thesis by blast
qed

theorem PadOutputs_never_truncates_idempotent_witness:
  "\<exists>after.
     PadOutputs_call (PadOutputs_init [(''bodyparts'', 3), (''unique_bodyparts'', 0)] (- 1))
       [(''bodyparts'', \<lparr>shape = [1, 2], data = [5, 6 :: int]\<rparr>),
        (''unique_bodyparts'', \<lparr>shape = [1, 1], data = [7]\<rparr>)] [] = (after, Inr (after, [])) \<and>
     map_of after ''bodyparts'' = Some \<lparr>shape = [3, 2], data = [5, 6, - 1, - 1, - 1, - 1]\<rparr> \<and>
     map_of after ''unique_bodyparts'' = Some \<lparr>shape = [1, 1], data = [7]\<rparr> \<and>
     PadOutputs_call (PadOutputs_init [(''bodyparts'', 3), (''unique_bodyparts'', 0)] (- 1))
       after [] = (after, Inr (after, []))"
proof -
  let ?self = "PadOutputs_init [(''bodyparts'', 3), (''unique_bodyparts'', 0)] (- 1)"
  let ?p = "[(''bodyparts'', \<lparr>shape = [1, 2], data = [5, 6 :: int]\<rparr>),
             (''unique_bodyparts'', \<lparr>shape = [1, 1], data = [7]\<rparr>)]"
  have d: "distinct (dict_keys ?p)" by (simp add: dict_keys_def)
  have c: "list_all (\<lambda>(name, a). shape a \<noteq> [] \<and>
      name \<in> set (dict_keys (max_individuals ?self)) \<and> padding_fits ?self (name, a)) ?p"
    by (simp add: dict_keys_def PadOutputs_init_def padding_fits_def shape_fits_def
        max_intp_def itemsize_def)
  from PadOutputs_never_truncates_idempotent [OF d c, of "[]"]
  obtain after where
    call: "PadOutputs_call ?self ?p [] = (after, Inr (after, []))" and
    each: "\<forall>name a. map_of ?p name = Some a \<longrightarrow>
              (\<exists>n t target out.
                 shape a = n # t \<and> map_of (max_individuals ?self) name = Some target \<and>
                 map_of after name = Some out \<and>
                 (if int n < target
                  then shape out = nat target # t \<and>
                       data out = data a @ replicate ((nat target - n) * prod_list t) (- 1)
                  else out = a))" and
    again: "PadOutputs_call ?self after [] = (after, Inr (after, []))"
    by blast
  have four: "replicate 4 x = [x, x, x, x]" for x :: int
    by (simp add: numeral_eq_Suc)
  have "after = [(''bodyparts'', \<lparr>shape = [3, 2], data = [5, 6, - 1, - 1, - 1, - 1]\<rparr>),
        (''unique_bodyparts'', \<lparr>shape = [1, 1], data = [7]\<rparr>)]"
    using call
    by (auto simp: PadOutputs_call_def PadOutputs_init_def dict_keys_def dict_get_def dict_set_def
      len_array_def np_concatenate_def negate_def np_ones_def shape_fits_def max_intp_def
      itemsize_def Let_def four)
  with call again show ?thesis by auto
qed

section \<open>Properties of RescaleAndOffset\<close>

lemma rescale_outputs_top_down_mismatch:
  "len_array outputs = Inr n \<Longrightarrow> len_array scales = Inr ns \<Longrightarrow>
   len_array offsets = Inr no \<Longrightarrow> \<not> (n = ns \<and> ns = no) \<Longrightarrow>
   rescale_outputs KEYPOINT_TD outputs scales offsets = Inl ValueError"
  by (auto simp: rescale_outputs_def cardinality_error_def then_do_def)

lemma rescale_loop_top_down_mismatch:
  assumes "mode self = KEYPOINT_TD"
    and "len_array scales = Inr ns" and "len_array offsets = Inr no"
    and "\<not> (n = ns \<and> ns = no)"
    and "list_ex (\<lambda>(name, a). name \<in> set (keys_to_rescale self)) items"
    and "list_all (\<lambda>(name, a). name \<in> set (keys_to_rescale self) \<longrightarrow> len_array a = Inr n) items"
  shows "rescale_loop self scales offsets items updated = Inl ValueError"
  using assms(5,6)
proof (induction items arbitrary: updated)
  case Nil
  then show ?case by simp
next
  case (Cons entry items)
  obtain name a where entry: "entry = (name, a)" by (cases entry)
  show ?case
  proof (cases "name \<in> set (keys_to_rescale self)")
    case True
    with Cons.prems(2) entry have "len_array a = Inr n" by simp
    then have "rescale_outputs KEYPOINT_TD a scales offsets = Inl ValueError"
      using assms(2,3,4) by (rule rescale_outputs_top_down_mismatch)
    then show ?thesis by (simp add: entry True assms(1))
  next
    case False
    with Cons.prems entry have
      "list_ex (\<lambda>(name, a). name \<in> set (keys_to_rescale self)) items"
      "list_all (\<lambda>(name, a). name \<in> set (keys_to_rescale self) \<longrightarrow> len_array a = Inr n) items"
      by simp_all
    then show ?thesis by (simp add: entry False Cons.IH)
  qed
qed

text \<open>
  C3. In \<^verbatim>\<open>KEYPOINT_TD\<close> mode, with scales and offsets in the context, a key to
  rescale among the predictions, and \<open>n\<close> candidates in every array to rescale: when
  \<open>n\<close>, the number of scales and the number of offsets are not all equal, the call
  raises ValueError, returns nothing, and leaves the mapping it was given as it was
  (three candidates with two scales and two offsets, for instance).
\<close>

theorem RescaleAndOffset_top_down_cardinality:
  assumes "mode self = KEYPOINT_TD"
    and "dict_get context ''scales'' = Inr scales"
    and "dict_get context ''offsets'' = Inr offsets"
    and "len_array scales = Inr ns" and "len_array offsets = Inr no"
    and "list_ex (\<lambda>(name, a). name \<in> set (keys_to_rescale self)) predictions"
    and "list_all (\<lambda>(name, a). name \<in> set (keys_to_rescale self) \<longrightarrow> len_array a = Inr n)
           predictions"
    and "\<not> (n = ns \<and> ns = no)"
  shows "RescaleAndOffset_call self predictions context = (predictions, Inl ValueError)"
proof -
  have "''scales'' \<in> set (dict_keys context)"
    using assms(2) by (rule dict_get_Inr_key)
  moreover have "rescale_loop self scales offsets predictions [] = Inl ValueError"
    using assms(1,4,5,8,6,7) by (rule rescale_loop_top_down_mismatch)
  ultimately show ?thesis
    by (simp add: RescaleAndOffset_call_def assms(2,3) then_do_def)
qed

theorem RescaleAndOffset_top_down_cardinality_witness:
  "RescaleAndOffset_call \<lparr>keys_to_rescale = [''bodyparts''], mode = KEYPOINT_TD\<rparr>
     [(''bodyparts'', \<lparr>shape = [3, 1, 3], data = [1, 2, 3, 4, 5, 6, 7, 8, 9 :: int]\<rparr>)]
     [(''scales'', \<lparr>shape = [2, 2], data = [2, 2, 2, 2]\<rparr>),
      (''offsets'', \<lparr>shape = [2, 2], data = [0, 0, 0, 0]\<rparr>)] =
   ([(''bodyparts'', \<lparr>shape = [3, 1, 3], data = [1, 2, 3, 4, 5, 6, 7, 8, 9]\<rparr>)],
    Inl ValueError)"
  by (rule RescaleAndOffset_top_down_cardinality [where ns = 2 and no = 2 and n = 3
        and scales = "\<lparr>shape = [2, 2], data = [2, 2, 2, 2]\<rparr>"
        and offsets = "\<lparr>shape = [2, 2], data = [0, 0, 0, 0]\<rparr>"])
     (simp_all add: dict_get_def len_array_def)

text \<open>
  Arrays of shape \<open>(n, c)\<close> seen as their list of rows: reading a column, multiplying
  and adding a scalar, and writing a column back.
\<close>

lemma chunks_concat:
  "list_all (\<lambda>r. length r = c) rs \<Longrightarrow> chunks c (length rs) (concat rs) = rs"
  by (induction rs) simp_all

lemma chunks_singletons: "chunks (Suc 0) (length xs) xs = map (\<lambda>x. [x]) xs"
  by (induction xs) simp_all

lemma chunks_rows:
  "length xs = n * c \<Longrightarrow>
   concat (chunks c n xs) = xs \<and> length (chunks c n xs) = n \<and>
   list_all (\<lambda>r. length r = c) (chunks c n xs)"
proof (induction n arbitrary: xs)
  case 0
  then show ?case by simp
next
  case (Suc n)
  then have "length (drop c xs) = n * c" by simp
  from Suc.IH [OF this] Suc.prems show ?case by simp
qed

lemma select_column:
  assumes "j < c" and "list_all (\<lambda>r. length r = c) rs"
  shows "select 1 \<lparr>shape = [length rs, c], data = concat rs\<rparr> j =
         Inr \<lparr>shape = [length rs], data = map (\<lambda>r. r ! j) rs\<rparr>"
proof -
  have "take (Suc 0) (drop j r) = [r ! j]" if "r \<in> set rs" for r
    using that assms by (simp add: list_all_iff take_Suc_conv_app_nth hd_drop_conv_nth
        take_Suc)
  then have "concat (map (\<lambda>block. take (Suc 0) (drop j block)) rs) = map (\<lambda>r. r ! j) rs"
    by (induction rs) simp_all
  then show ?thesis using assms by (simp add: select_def chunks_concat)
qed

lemma select_pair:
  "i < 2 \<Longrightarrow> select 0 \<lparr>shape = [2], data = [s0, s1]\<rparr> i = Inr \<lparr>shape = [], data = [[s0, s1] ! i]\<rparr>"
  by (cases i) (auto simp: select_def less_Suc_eq numeral_2_eq_2)

lemma expand_same: "length xs = n \<Longrightarrow> expand [n] [n] xs = xs"
  using chunks_singletons [of xs] by (simp add: comp_def)

lemma expand_scalar: "expand [Suc 0] [n] [s] = replicate n s"
  by (cases "n = Suc 0") simp_all

lemma map2_replicate:
  "map (\<lambda>(x, y). f x y) (zip xs (replicate (length xs) s)) = map (\<lambda>x. f x s) xs"
  by (induction xs) simp_all

lemma broadcast_op_scalar:
  assumes "length xs = n"
  shows "broadcast_op f \<lparr>shape = [n], data = xs\<rparr> \<lparr>shape = [], data = [s]\<rparr> =
         Inr \<lparr>shape = [n], data = map (\<lambda>x. f x s) xs\<rparr>"
proof -
  have dims: "broadcast_dims [n] [Suc 0] = Inr [n]" by simp
  have e1: "expand [n] [n] xs = xs" by (rule expand_same [OF assms])
  have e2: "expand [Suc 0] [n] [s] = replicate (length xs) s"
    unfolding assms by (rule expand_scalar)
  show ?thesis
    by (simp add: broadcast_op_def pad_shape_def dims e1 e2 map2_replicate
        del: expand.simps broadcast_dims.simps)
qed

lemma assign_column:
  assumes "j < c" and "list_all (\<lambda>r. length r = c) rs" and "length vs = length rs"
  shows "assign 1 \<lparr>shape = [length rs, c], data = concat rs\<rparr> j \<lparr>shape = [length rs], data = vs\<rparr> =
         Inr \<lparr>shape = [length rs, c],
              data = concat (map (\<lambda>(r, x). r[j := x]) (zip rs vs))\<rparr>"
proof -
  have into: "broadcast_into [length rs] \<lparr>shape = [length rs], data = vs\<rparr> = Inr vs"
    using expand_same [OF assms(3)]
    by (simp add: broadcast_into_def pad_shape_def del: expand.simps)
  have "concat (map (\<lambda>(block, piece). take j block @ piece @ drop (Suc j) block)
                    (zip rs (map (\<lambda>x. [x]) vs))) =
        concat (map (\<lambda>(r, x). r[j := x]) (zip rs vs))"
    using assms(2,3)
  proof (induction rs arbitrary: vs)
    case Nil
    then show ?case by simp
  next
    case (Cons r rs)
    then obtain x xs where "vs = x # xs" by (cases vs) auto
    with Cons assms(1) show ?case by (simp add: upd_conv_take_nth_drop)
  qed
  then show ?thesis
    using assms
    by (simp add: assign_def into chunks_concat chunks_singletons [of vs, unfolded assms(3)])
qed


lemma assign_column_map:
  assumes "j < c" and "list_all (\<lambda>r. length (F r) = c) rs"
  shows "assign 1 \<lparr>shape = [length rs, c], data = concat (map F rs)\<rparr> j
           \<lparr>shape = [length rs], data = map G rs\<rparr> =
         Inr \<lparr>shape = [length rs, c], data = concat (map (\<lambda>r. (F r)[j := G r]) rs)\<rparr>"
proof -
  have rows: "list_all (\<lambda>r. length r = c) (map F rs)"
    using assms(2) by (simp add: list_all_iff)
  have "map (\<lambda>(r, x). r[j := x]) (zip (map F rs) (map G rs)) = map (\<lambda>r. (F r)[j := G r]) rs"
    by (induction rs) simp_all
  with assign_column [OF assms(1) rows, of "map G rs"] show ?thesis by simp
qed

lemma scale_and_offset_column:
  assumes "j < c" and "i < 2" and "list_all (\<lambda>r. length r = c) rs"
    and "list_all (\<lambda>r. length (F r) = c) rs"
  shows "scale_and_offset 1 j i
           \<lparr>shape = [length rs, c], data = concat (map F rs)\<rparr>
           \<lparr>shape = [length rs, c], data = concat rs\<rparr>
           \<lparr>shape = [2], data = [s0, s1]\<rparr> \<lparr>shape = [2], data = [o0, o1]\<rparr> =
         Inr \<lparr>shape = [length rs, c],
              data = concat (map (\<lambda>r. (F r)[j := r ! j * [s0, s1] ! i + [o0, o1] ! i]) rs)\<rparr>"
proof -
  have mul: "broadcast_op (\<lambda>x y. x * y) \<lparr>shape = [length rs], data = map (\<lambda>r. r ! j) rs\<rparr>
               \<lparr>shape = [], data = [[s0, s1] ! i]\<rparr> =
             Inr \<lparr>shape = [length rs], data = map (\<lambda>r. r ! j * [s0, s1] ! i) rs\<rparr>"
    using broadcast_op_scalar [of "map (\<lambda>r. r ! j) rs" "length rs" "\<lambda>x y. x * y" "[s0, s1] ! i"]
    by (simp add: comp_def)
  have add: "broadcast_op (\<lambda>x y. x + y)
               \<lparr>shape = [length rs], data = map (\<lambda>r. r ! j * [s0, s1] ! i) rs\<rparr>
               \<lparr>shape = [], data = [[o0, o1] ! i]\<rparr> =
             Inr \<lparr>shape = [length rs],
                  data = map (\<lambda>r. r ! j * [s0, s1] ! i + [o0, o1] ! i) rs\<rparr>"
    using broadcast_op_scalar [of "map (\<lambda>r. r ! j * [s0, s1] ! i) rs" "length rs"
        "\<lambda>x y. x + y" "[o0, o1] ! i"]
    by (simp add: comp_def)
  show ?thesis
    unfolding scale_and_offset_def then_do_def
    by (simp only: select_column [OF assms(1,3)] select_pair [OF assms(2)] mul add
        assign_column_map [OF assms(1,4)] sum.case)
qed

lemma scale_only_column:
  assumes "j < c" and "i < 2" and "list_all (\<lambda>r. length r = c) rs"
    and "list_all (\<lambda>r. length (F r) = c) rs"
  shows "scale_only 1 j i
           \<lparr>shape = [length rs, c], data = concat (map F rs)\<rparr>
           \<lparr>shape = [length rs, c], data = concat rs\<rparr>
           \<lparr>shape = [2], data = [s0, s1]\<rparr> =
         Inr \<lparr>shape = [length rs, c],
              data = concat (map (\<lambda>r. (F r)[j := r ! j * [s0, s1] ! i]) rs)\<rparr>"
proof -
  have mul: "broadcast_op (\<lambda>x y. x * y) \<lparr>shape = [length rs], data = map (\<lambda>r. r ! j) rs\<rparr>
               \<lparr>shape = [], data = [[s0, s1] ! i]\<rparr> =
             Inr \<lparr>shape = [length rs], data = map (\<lambda>r. r ! j * [s0, s1] ! i) rs\<rparr>"
    using broadcast_op_scalar [of "map (\<lambda>r. r ! j) rs" "length rs" "\<lambda>x y. x * y" "[s0, s1] ! i"]
    by (simp add: comp_def)
  show ?thesis
    unfolding scale_only_def then_do_def
    by (simp only: select_column [OF assms(1,3)] select_pair [OF assms(2)] mul
        assign_column_map [OF assms(1,4)] sum.case)
qed

lemma rescale_outputs_bbox_rows:
  assumes rows: "list_all (\<lambda>r. length r = 4) rs"
  shows "rescale_outputs BBOX_XYWH \<lparr>shape = [length rs, 4], data = concat rs\<rparr>
           \<lparr>shape = [2], data = [sx, sy]\<rparr> \<lparr>shape = [2], data = [ox, oy]\<rparr> =
         Inr \<lparr>shape = [length rs, 4],
              data = concat (map (\<lambda>r. [r ! 0 * sx + ox, r ! 1 * sy + oy, r ! 2 * sx, r ! 3 * sy])
                                 rs)\<rparr>"
proof -
  let ?F1 = "\<lambda>r. r[0 := r ! 0 * sx + ox]"
  let ?F2 = "\<lambda>r. (?F1 r)[1 := r ! 1 * sy + oy]"
  let ?F3 = "\<lambda>r. (?F2 r)[2 := r ! 2 * sx]"
  let ?F4 = "\<lambda>r. (?F3 r)[3 := r ! 3 * sy]"
  let ?A = "\<lambda>F. \<lparr>shape = [length rs, 4], data = concat (map F rs)\<rparr>"
  let ?S = "\<lparr>shape = [2], data = [sx, sy]\<rparr>"
  let ?O = "\<lparr>shape = [2], data = [ox, oy]\<rparr>"
  have s1: "scale_and_offset 1 0 0 (?A (\<lambda>r. r)) (?A (\<lambda>r. r)) ?S ?O = Inr (?A ?F1)"
    using scale_and_offset_column [of 0 4 0 rs "\<lambda>r. r" sx sy ox oy] rows by simp
  have s2: "scale_and_offset 1 1 1 (?A ?F1) (?A (\<lambda>r. r)) ?S ?O = Inr (?A ?F2)"
    using scale_and_offset_column [of 1 4 1 rs ?F1 sx sy ox oy] rows by simp
  have s3: "scale_only 1 2 0 (?A ?F2) (?A (\<lambda>r. r)) ?S = Inr (?A ?F3)"
    using scale_only_column [of 2 4 0 rs ?F2 sx sy] rows by simp
  have s4: "scale_only 1 3 1 (?A ?F3) (?A (\<lambda>r. r)) ?S = Inr (?A ?F4)"
    using scale_only_column [of 3 4 1 rs ?F3 sx sy] rows by simp
  have four: "?F4 r = [r ! 0 * sx + ox, r ! 1 * sy + oy, r ! 2 * sx, r ! 3 * sy]"
    if "length r = 4" for r
  proof -
    from that obtain x y w h where "r = [x, y, w, h]"
      by (auto simp: length_Suc_conv numeral_eq_Suc)
    then show ?thesis by simp
  qed
  have "map ?F4 rs = map (\<lambda>r. [r ! 0 * sx + ox, r ! 1 * sy + oy, r ! 2 * sx, r ! 3 * sy]) rs"
    using rows four by (simp add: list_all_iff cong: map_cong)
  then have last: "?A ?F4 = ?A (\<lambda>r. [r ! 0 * sx + ox, r ! 1 * sy + oy, r ! 2 * sx, r ! 3 * sy])"
    by (simp only:)
  have "rescale_outputs BBOX_XYWH (?A (\<lambda>r. r)) ?S ?O = Inr (?A ?F4)"
    unfolding rescale_outputs_def then_do_def
    by (simp only: Mode.case s1 s2 s3 s4 sum.case)
  with last show ?thesis by simp
qed


lemma rescale_loop_result:
  assumes "list_all (\<lambda>(name, a). name \<in> set (keys_to_rescale self) \<longrightarrow>
             rescale_outputs (mode self) a scales offsets = Inr (G a)) items"
  shows "rescale_loop self scales offsets items updated =
         Inr (fold (\<lambda>(name, a) d. dict_set d name
                      (if name \<in> set (keys_to_rescale self) then G a else a)) items updated)"
  using assms
proof (induction items arbitrary: updated)
  case Nil
  then show ?case by simp
next
  case (Cons entry items)
  obtain name a where entry: "entry = (name, a)" by (cases entry)
  from Cons.prems entry have
    here: "name \<in> set (keys_to_rescale self) \<longrightarrow>
           rescale_outputs (mode self) a scales offsets = Inr (G a)"
    and rest: "list_all (\<lambda>(name, a). name \<in> set (keys_to_rescale self) \<longrightarrow>
             rescale_outputs (mode self) a scales offsets = Inr (G a)) items"
    by simp_all
  from here show ?case by (simp add: entry Cons.IH [OF rest])
qed

lemma map_of_fold_entries:
  "distinct (map fst items) \<Longrightarrow>
   map_of (fold (\<lambda>(k, v) d. dict_set d k (h k v)) items d) k' =
     (case map_of items k' of Some v \<Rightarrow> Some (h k' v) | None \<Rightarrow> map_of d k')"
proof (induction items arbitrary: d)
  case Nil
  then show ?case by simp
next
  case (Cons entry items)
  obtain k v where entry: "entry = (k, v)" by (cases entry)
  from Cons.prems entry have fresh: "map_of items k = None" and dist: "distinct (map fst items)"
    by (simp_all add: map_of_eq_None_iff)
  have upd: "map_of (dict_set d k (h k v)) = (map_of d)(k \<mapsto> h k v)"
    by (simp add: dict_set_def update_conv')
  show ?case
    using fresh by (auto simp: entry Cons.IH [OF dist] upd split: option.splits)
qed

text \<open>
  C9. In \<^verbatim>\<open>BBOX_XYWH\<close> mode, with one scale pair \<open>(scale_x, scale_y)\<close> and one
  offset pair \<open>(offset_x, offset_y)\<close> in the context, the call succeeds on arrays of
  shape \<open>(N, 4)\<close> and maps every row \<open>(x, y, w, h)\<close> of an array to rescale to
  \<open>(x * scale_x + offset_x, y * scale_y + offset_y, w * scale_x, h * scale_y)\<close>:
  width and height are scaled and get no offset. The other arrays are copied, and the
  mapping given to the call is not written to.
\<close>

theorem RescaleAndOffset_bbox_xywh:
  assumes bbox: "mode self = BBOX_XYWH"
    and scales: "dict_get context ''scales'' = Inr \<lparr>shape = [2], data = [scale_x, scale_y]\<rparr>"
    and offsets: "dict_get context ''offsets'' = Inr \<lparr>shape = [2], data = [offset_x, offset_y]\<rparr>"
    and dist: "distinct (dict_keys predictions)"
    and boxes: "list_all (\<lambda>(name, a). name \<in> set (keys_to_rescale self) \<longrightarrow>
                  (\<exists>n. shape a = [n, 4]) \<and> wf_array a) predictions"
  shows "\<exists>updated.
           RescaleAndOffset_call self predictions context =
             (predictions, Inr (updated, context)) \<and>
           (\<forall>name a. map_of predictions name = Some a \<and> name \<in> set (keys_to_rescale self) \<longrightarrow>
              (\<exists>out. map_of updated name = Some out \<and> shape out = shape a \<and>
                 (\<forall>i < hd (shape a). \<exists>x y w h.
                    select 0 a i = Inr \<lparr>shape = [4], data = [x, y, w, h]\<rparr> \<and>
                    select 0 out i =
                      Inr \<lparr>shape = [4],
                           data = [x * scale_x + offset_x, y * scale_y + offset_y,
                                   w * scale_x, h * scale_y]\<rparr>))) \<and>
           (\<forall>name a. map_of predictions name = Some a \<and> name \<notin> set (keys_to_rescale self) \<longrightarrow>
              map_of updated name = Some a)"
proof -
  let ?S = "\<lparr>shape = [2], data = [scale_x, scale_y]\<rparr>"
  let ?O = "\<lparr>shape = [2], data = [offset_x, offset_y]\<rparr>"
  let ?row = "\<lambda>r. [r ! 0 * scale_x + offset_x, r ! 1 * scale_y + offset_y,
                    r ! 2 * scale_x, r ! 3 * scale_y]"
  let ?rows = "\<lambda>a. chunks 4 (hd (shape a)) (data a)"
  let ?G = "\<lambda>a. \<lparr>shape = shape a, data = concat (map ?row (?rows a))\<rparr>"
  let ?h = "\<lambda>name a. if name \<in> set (keys_to_rescale self) then ?G a else a"
  let ?updated = "fold (\<lambda>(name, a) d. dict_set d name (?h name a)) predictions []"
  have rows_form: "a = \<lparr>shape = [length (?rows a), 4], data = concat (?rows a)\<rparr> \<and>
      hd (shape a) = length (?rows a) \<and> list_all (\<lambda>r. length r = 4) (?rows a)"
    if mem: "(name, a) \<in> set predictions" and key: "name \<in> set (keys_to_rescale self)"
    for name a
  proof -
    from boxes mem key obtain n where n: "shape a = [n, 4]" and wf: "wf_array a"
      by (auto simp: list_all_iff)
    from wf n have "length (data a) = n * 4" by (simp add: wf_array_def)
    from chunks_rows [OF this] n show ?thesis by simp
  qed
  have each: "list_all (\<lambda>(name, a). name \<in> set (keys_to_rescale self) \<longrightarrow>
      rescale_outputs (mode self) a ?S ?O = Inr (?G a)) predictions"
    unfolding list_all_iff
  proof (intro ballI, clarify)
    fix name a
    assume mem: "(name, a) \<in> set predictions" and key: "name \<in> set (keys_to_rescale self)"
    note rf = rows_form [OF mem key]
    have a: "a = \<lparr>shape = [length (?rows a), 4], data = concat (?rows a)\<rparr>"
      by (rule rf [THEN conjunct1])
    have r: "list_all (\<lambda>r. length r = 4) (?rows a)"
      by (rule rf [THEN conjunct2, THEN conjunct2])
    have "rescale_outputs BBOX_XYWH \<lparr>shape = [length (?rows a), 4], data = concat (?rows a)\<rparr>
            ?S ?O =
          Inr \<lparr>shape = [length (?rows a), 4], data = concat (map ?row (?rows a))\<rparr>"
      by (rule rescale_outputs_bbox_rows [OF r])
    moreover have "shape a = [length (?rows a), 4]"
      using a by (metis ndarray.select_convs(1))
    ultimately show "rescale_outputs (mode self) a ?S ?O = Inr (?G a)"
      using a by (simp add: bbox)
  qed
  have loop: "rescale_loop self ?S ?O predictions [] = Inr ?updated"
    by (rule rescale_loop_result [OF each])
  have has_scales: "''scales'' \<in> set (dict_keys context)"
    using scales by (rule dict_get_Inr_key)
  have call: "RescaleAndOffset_call self predictions context =
      (predictions, Inr (?updated, context))"
    using has_scales by (simp add: RescaleAndOffset_call_def scales offsets loop then_do_def)
  have lookup: "map_of ?updated name = Some (?h name a)"
    if "map_of predictions name = Some a" for name a
    using that dist by (simp add: map_of_fold_entries dict_keys_def)
  have rescaled: "\<exists>out. map_of ?updated name = Some out \<and> shape out = shape a \<and>
      (\<forall>i < hd (shape a). \<exists>x y w h.
         select 0 a i = Inr \<lparr>shape = [4], data = [x, y, w, h]\<rparr> \<and>
         select 0 out i =
           Inr \<lparr>shape = [4],
                data = [x * scale_x + offset_x, y * scale_y + offset_y,
                        w * scale_x, h * scale_y]\<rparr>)"
    if m: "map_of predictions name = Some a" and key: "name \<in> set (keys_to_rescale self)"
    for name a
  proof -
    from m have mem: "(name, a) \<in> set predictions" by (rule map_of_SomeD)
    note rf = rows_form [OF mem key]
    have a: "a = \<lparr>shape = [length (?rows a), 4], data = concat (?rows a)\<rparr>"
      by (rule rf [THEN conjunct1])
    have n: "hd (shape a) = length (?rows a)"
      by (rule rf [THEN conjunct2, THEN conjunct1])
    have r: "list_all (\<lambda>r. length r = 4) (?rows a)"
      by (rule rf [THEN conjunct2, THEN conjunct2])
    have shp: "shape a = [length (?rows a), 4]"
      using a by (metis ndarray.select_convs(1))
    have dat: "data a = concat (?rows a)"
      using a by (metis ndarray.select_convs(2))
    have out: "map_of ?updated name = Some (?G a)"
      using lookup [OF m] key by simp
    have row: "\<exists>x y w h.
        select 0 a i = Inr \<lparr>shape = [4], data = [x, y, w, h]\<rparr> \<and>
        select 0 (?G a) i =
          Inr \<lparr>shape = [4],
               data = [x * scale_x + offset_x, y * scale_y + offset_y,
                       w * scale_x, h * scale_y]\<rparr>"
      if i: "i < hd (shape a)" for i
    proof -
      from i n have i': "i < length (?rows a)" by simp
      from r i' have "length (?rows a ! i) = 4" by (simp add: list_all_length)
      then obtain x y w h where xywh: "?rows a ! i = [x, y, w, h]"
        by (auto simp: length_Suc_conv numeral_eq_Suc)
      have r4: "list_all (\<lambda>xs. length xs = prod_list [4]) (?rows a)"
        using r by simp
      have "select 0 \<lparr>shape = length (?rows a) # [4], data = concat (?rows a)\<rparr> i =
            Inr \<lparr>shape = [4], data = ?rows a ! i\<rparr>"
        by (rule select_row_of_concat [OF r4 i'])
      then have before: "select 0 a i = Inr \<lparr>shape = [4], data = [x, y, w, h]\<rparr>"
        using a xywh by simp
      have r4': "list_all (\<lambda>xs. length xs = prod_list [4]) (map ?row (?rows a))"
        by (simp add: list_all_iff)
      have i'': "i < length (map ?row (?rows a))" using i' by simp
      have "select 0 \<lparr>shape = length (map ?row (?rows a)) # [4],
                      data = concat (map ?row (?rows a))\<rparr> i =
            Inr \<lparr>shape = [4], data = map ?row (?rows a) ! i\<rparr>"
        by (rule select_row_of_concat [OF r4' i''])
      then have after: "select 0 (?G a) i =
          Inr \<lparr>shape = [4],
               data = [x * scale_x + offset_x, y * scale_y + offset_y,
                       w * scale_x, h * scale_y]\<rparr>"
        using shp i' xywh by simp
      from before after show ?thesis by blast
    qed
    from out row show ?thesis by auto
  qed
  have copied: "map_of ?updated name = Some a"
    if "map_of predictions name = Some a" and "name \<notin> set (keys_to_rescale self)" for name a
    using lookup [OF that(1)] that(2) by simp
  from call rescaled copied show ?thesis by blast
qed


theorem RescaleAndOffset_bbox_xywh_witness:
  "\<exists>updated out.
     RescaleAndOffset_call \<lparr>keys_to_rescale = [''bboxes''], mode = BBOX_XYWH\<rparr>
       [(''bboxes'', \<lparr>shape = [2, 4], data = [1, 2, 3, 4, 5, 6, 7, 8 :: int]\<rparr>)]
       [(''scales'', \<lparr>shape = [2], data = [10, 100]\<rparr>),
        (''offsets'', \<lparr>shape = [2], data = [1, 2]\<rparr>)] =
       ([(''bboxes'', \<lparr>shape = [2, 4], data = [1, 2, 3, 4, 5, 6, 7, 8]\<rparr>)],
        Inr (updated, [(''scales'', \<lparr>shape = [2], data = [10, 100]\<rparr>),
                       (''offsets'', \<lparr>shape = [2], data = [1, 2]\<rparr>)])) \<and>
     map_of updated ''bboxes'' = Some out \<and>
     select 0 out 1 = Inr \<lparr>shape = [4], data = [51, 602, 70, 800]\<rparr>"
proof -
  let ?self = "\<lparr>keys_to_rescale = [''bboxes''], mode = BBOX_XYWH\<rparr>"
  let ?a = "\<lparr>shape = [2, 4], data = [1, 2, 3, 4, 5, 6, 7, 8 :: int]\<rparr>"
  let ?p = "[(''bboxes'', ?a)]"
  let ?c = "[(''scales'', \<lparr>shape = [2], data = [10, 100 :: int]\<rparr>),
             (''offsets'', \<lparr>shape = [2], data = [1, 2]\<rparr>)]"
  have 1: "mode ?self = BBOX_XYWH" by simp
  have 2: "dict_get ?c ''scales'' = Inr \<lparr>shape = [2], data = [10, 100]\<rparr>"
    by (simp add: dict_get_def)
  have 3: "dict_get ?c ''offsets'' = Inr \<lparr>shape = [2], data = [1, 2]\<rparr>"
    by (simp add: dict_get_def)
  have 4: "distinct (dict_keys ?p)" by (simp add: dict_keys_def)
  have 5: "list_all (\<lambda>(name, a). name \<in> set (keys_to_rescale ?self) \<longrightarrow>
                  (\<exists>n. shape a = [n, 4]) \<and> wf_array a) ?p"
    by (simp add: wf_array_def)
  from RescaleAndOffset_bbox_xywh [OF 1 2 3 4 5]
  obtain updated where
    call: "RescaleAndOffset_call ?self ?p ?c = (?p, Inr (updated, ?c))" and
    each: "\<forall>name a. map_of ?p name = Some a \<and> name \<in> set (keys_to_rescale ?self) \<longrightarrow>
              (\<exists>out. map_of updated name = Some out \<and> shape out = shape a \<and>
                 (\<forall>i < hd (shape a). \<exists>x y w h.
                    select 0 a i = Inr \<lparr>shape = [4], data = [x, y, w, h]\<rparr> \<and>
                    select 0 out i =
                      Inr \<lparr>shape = [4],
                           data = [x * 10 + 1, y * 100 + 2, w * 10, h * 100]\<rparr>))"
    by blast
  from each have "\<exists>out. map_of updated ''bboxes'' = Some out \<and> shape out = shape ?a \<and>
                 (\<forall>i < hd (shape ?a). \<exists>x y w h.
                    select 0 ?a i = Inr \<lparr>shape = [4], data = [x, y, w, h]\<rparr> \<and>
                    select 0 out i =
                      Inr \<lparr>shape = [4],
                           data = [x * 10 + 1, y * 100 + 2, w * 10, h * 100]\<rparr>)"
    by simp
  then obtain out where out: "map_of updated ''bboxes'' = Some out" and
    rows: "\<forall>i < hd (shape ?a). \<exists>x y w h.
                    select 0 ?a i = Inr \<lparr>shape = [4], data = [x, y, w, h]\<rparr> \<and>
                    select 0 out i =
                      Inr \<lparr>shape = [4],
                           data = [x * 10 + 1, y * 100 + 2, w * 10, h * 100]\<rparr>"
    by blast
  have sel: "select 0 ?a 1 = Inr \<lparr>shape = [4], data = [5, 6, 7, 8]\<rparr>"
    by (simp add: select_def)
  from rows have "\<exists>x y w h.
      select 0 ?a 1 = Inr \<lparr>shape = [4], data = [x, y, w, h]\<rparr> \<and>
      select 0 out 1 = Inr \<lparr>shape = [4], data = [x * 10 + 1, y * 100 + 2, w * 10, h * 100]\<rparr>"
    by simp
  with sel have "select 0 out 1 = Inr \<lparr>shape = [4], data = [51, 602, 70, 800]\<rparr>"
    by auto
  with call out show ?thesis by blast
qed

end
